theory Spec2Isabelle
  imports Complex_Main "HOL-Library.Multiset" "HOL-Library.Word" "HOL-Library.Product_Lexorder"
begin

text \<open>
  The object-ranking engine of \<^verbatim>\<open>aeb_object_tracking\<close> (\<^verbatim>\<open>DetectedObject\<close>, the
  comparators, the sorting and query operations of \<^verbatim>\<open>AEBObjectTracker\<close>) and the
  instruction parser of \<^verbatim>\<open>robot_navigator\<close>, as functions of HOL, followed by the
  properties of them that the specification states.
\<close>

section \<open>Single-precision values\<close>

text \<open>
  The C++ type \<^verbatim>\<open>float\<close>: IEEE 754 binary32. A finite value is \<open>Finite r\<close> for the
  real number \<open>r\<close> it denotes (so \<open>+0\<close> and \<open>-0\<close> coincide, as they do under every
  comparison of the program); the two infinities and NaN are separate constructors. The
  arithmetic operations round their exact result to the nearest binary32 number, ties to
  even, and return an infinity when the rounded result is \<open>2 ^ 128\<close> or more in magnitude. A
  decimal literal with the suffix \<^verbatim>\<open>f\<close> denotes the binary32 number nearest to it. The
  type also holds \<open>Finite r\<close> for reals that are no binary32 numbers; the operations never
  return one, and a statement about all values covers the binary32 numbers.
\<close>

datatype float = Finite real | PInf | NInf | NaN

fun isinf :: "float \<Rightarrow> bool" where
  "isinf PInf = True"
| "isinf NInf = True"
| "isinf _ = False"

fun fneg :: "float \<Rightarrow> float" where
  "fneg (Finite a) = Finite (- a)"
| "fneg PInf = NInf"
| "fneg NInf = PInf"
| "fneg NaN = NaN"

fun fabs :: "float \<Rightarrow> float" where
  "fabs (Finite a) = Finite \<bar>a\<bar>"
| "fabs PInf = PInf"
| "fabs NInf = PInf"
| "fabs NaN = NaN"

text \<open>\<open>a < b\<close> on floats: false as soon as one operand is NaN.\<close>

fun flt :: "float \<Rightarrow> float \<Rightarrow> bool" where
  "flt NaN _ = False"
| "flt _ NaN = False"
| "flt (Finite a) (Finite b) = (a < b)"
| "flt (Finite a) PInf = True"
| "flt (Finite a) NInf = False"
| "flt PInf _ = False"
| "flt NInf NInf = False"
| "flt NInf _ = True"

text \<open>\<open>a <= b\<close> on floats: false as soon as one operand is NaN.\<close>

fun fle :: "float \<Rightarrow> float \<Rightarrow> bool" where
  "fle NaN _ = False"
| "fle _ NaN = False"
| "fle (Finite a) (Finite b) = (a \<le> b)"
| "fle (Finite a) PInf = True"
| "fle (Finite a) NInf = False"
| "fle PInf PInf = True"
| "fle PInf _ = False"
| "fle NInf _ = True"

definition fgt :: "float \<Rightarrow> float \<Rightarrow> bool" where
  "fgt a b = flt b a"

text \<open>Rounding a real to the nearest integer, ties to the even one.\<close>

definition round_half_even :: "real \<Rightarrow> int" where
  "round_half_even y =
     (let n = \<lfloor>y\<rfloor>; f = y - of_int n
      in if f < 1 / 2 then n else if 1 / 2 < f then n + 1 else if even n then n else n + 1)"

text \<open>
  The exponent of a positive real \<open>a\<close>: the \<open>e\<close> with \<open>2 ^ e \<le> a < 2 ^ (e + 1)\<close>, kept between
  \<open>-126\<close> (below, the subnormal numbers share the exponent of the smallest normal ones)
  and 127 (the largest exponent of the format). It is found by halving or doubling.
\<close>

function exp_up :: "real \<Rightarrow> int \<Rightarrow> int" where
  "exp_up m e = (if 2 \<le> m \<and> e < 127 then exp_up (m / 2) (e + 1) else e)"
  by pat_completeness auto
termination
  by (relation "measure (\<lambda>(m, e). nat (127 - e))") auto

function exp_down :: "real \<Rightarrow> int \<Rightarrow> int" where
  "exp_down m e = (if m < 1 \<and> - 126 < e then exp_down (2 * m) (e - 1) else e)"
  by pat_completeness auto
termination
  by (relation "measure (\<lambda>(m, e). nat (e + 126))") auto

definition binade :: "real \<Rightarrow> int" where
  "binade a = (if 1 \<le> a then exp_up a 0 else exp_down a 0)"

text \<open>
  With 24 significant bits, the binary32 numbers of exponent \<open>e\<close> are the multiples of
  \<open>2 ^ (e - 23)\<close>. \<open>round_magnitude a\<close> is the multiple nearest to the positive real \<open>a\<close>.
\<close>

definition quantum :: "real \<Rightarrow> real" where
  "quantum a = 2 powi (binade a - 23)"

definition round_magnitude :: "real \<Rightarrow> real" where
  "round_magnitude a = of_int (round_half_even (a / quantum a)) * quantum a"

definition round32 :: "real \<Rightarrow> float" where
  "round32 x =
     (if x = 0 then Finite 0
      else if 2 powi 128 \<le> round_magnitude \<bar>x\<bar> then (if 0 < x then PInf else NInf)
      else Finite (if 0 < x then round_magnitude \<bar>x\<bar> else - round_magnitude \<bar>x\<bar>))"

text \<open>A decimal literal such as \<^verbatim>\<open>0.1f\<close>.\<close>

definition float_literal :: "real \<Rightarrow> float" where
  "float_literal x = round32 x"

text \<open>A real is a binary32 number when rounding leaves it as it is.\<close>

definition binary32 :: "real \<Rightarrow> bool" where
  "binary32 r = (round32 r = Finite r)"

fun fadd :: "float \<Rightarrow> float \<Rightarrow> float" where
  "fadd NaN _ = NaN"
| "fadd _ NaN = NaN"
| "fadd (Finite a) (Finite b) = round32 (a + b)"
| "fadd (Finite a) PInf = PInf"
| "fadd (Finite a) NInf = NInf"
| "fadd PInf NInf = NaN"
| "fadd PInf _ = PInf"
| "fadd NInf PInf = NaN"
| "fadd NInf _ = NInf"

definition fsub :: "float \<Rightarrow> float \<Rightarrow> float" where
  "fsub a b = fadd a (fneg b)"

text \<open>
  Division. A zero divisor is taken as \<open>+0\<close>; the program never divides by zero (its
  divisors are the literals 100, 10 and 2, and the negated relative velocity where
  the relative velocity is below \<open>-0.1\<close>).
\<close>

fun fdiv :: "float \<Rightarrow> float \<Rightarrow> float" where
  "fdiv NaN _ = NaN"
| "fdiv _ NaN = NaN"
| "fdiv (Finite a) (Finite b) =
     (if b = 0 then (if a = 0 then NaN else if 0 < a then PInf else NInf)
      else round32 (a / b))"
| "fdiv (Finite a) PInf = Finite 0"
| "fdiv (Finite a) NInf = Finite 0"
| "fdiv PInf (Finite b) = (if 0 \<le> b then PInf else NInf)"
| "fdiv NInf (Finite b) = (if 0 \<le> b then NInf else PInf)"
| "fdiv PInf _ = NaN"
| "fdiv NInf _ = NaN"

text \<open>\<^verbatim>\<open>std::max(a, b)\<close> is \<^verbatim>\<open>(a < b) ? b : a\<close>.\<close>

definition std_max :: "float \<Rightarrow> float \<Rightarrow> float" where
  "std_max a b = (if flt a b then b else a)"

section \<open>DetectedObject\<close>

text \<open>
  The private members \<^verbatim>\<open>id_\<close>, \<^verbatim>\<open>distance_\<close>, \<^verbatim>\<open>relative_velocity_\<close>,
  \<^verbatim>\<open>collision_time_\<close> and \<^verbatim>\<open>threat_level_\<close>; each field carries the name of the
  getter that reads it. An \<^verbatim>\<open>int\<close> is a 32-bit word (read as signed by \<open>sint\<close>).
\<close>

record DetectedObject =
  getId :: "32 word"
  getDistance :: float
  getRelativeVelocity :: float
  getCollisionTime :: float
  getThreatLevel :: float

text \<open>
  \<^verbatim>\<open>DetectedObject::calculateThreatLevel\<close>. The member function reads the members
  \<^verbatim>\<open>distance_\<close> and \<^verbatim>\<open>collision_time_\<close> of the object under construction; they are
  its two arguments here. Its literals, 10, 1, 0, 100 and 2, are binary32 numbers.
\<close>

definition calculateThreatLevel :: "float \<Rightarrow> float \<Rightarrow> float" where
  "calculateThreatLevel distance collision_time =
     (if fgt collision_time (Finite 10) then Finite 0
      else if flt collision_time (Finite 1) then Finite 1
      else
        let distance_factor = std_max (Finite 0) (fsub (Finite 1) (fdiv distance (Finite 100)));
            time_factor = std_max (Finite 0) (fsub (Finite 1) (fdiv collision_time (Finite 10)))
        in fdiv (fadd distance_factor time_factor) (Finite 2))"

text \<open>The constructor \<^verbatim>\<open>DetectedObject(int obj_id, float dist, float rel_vel)\<close>.\<close>

definition DetectedObject_new :: "32 word \<Rightarrow> float \<Rightarrow> float \<Rightarrow> DetectedObject" where
  "DetectedObject_new obj_id distance rel_vel =
     (let ct = (if flt rel_vel (fneg (float_literal 0.1)) then fdiv distance (fneg rel_vel)
               else PInf)
      in \<lparr> getId = obj_id, getDistance = distance, getRelativeVelocity = rel_vel,
           getCollisionTime = ct, getThreatLevel = calculateThreatLevel distance ct \<rparr>)"

text \<open>The default constructor delegates to \<^verbatim>\<open>DetectedObject(0, 0.0f, 0.0f)\<close>.\<close>

definition DetectedObject_default :: DetectedObject where
  "DetectedObject_default = DetectedObject_new 0 (Finite 0) (Finite 0)"

text \<open>\<^verbatim>\<open>DetectedObject::operator<\<close> and \<^verbatim>\<open>DetectedObject::operator==\<close>.\<close>

definition operator_less :: "DetectedObject \<Rightarrow> DetectedObject \<Rightarrow> bool" where
  "operator_less this other = flt (getCollisionTime this) (getCollisionTime other)"

definition operator_eq :: "DetectedObject \<Rightarrow> DetectedObject \<Rightarrow> bool" where
  "operator_eq this other = (getId this = getId other)"

section \<open>Comparators\<close>

text \<open>\<^verbatim>\<open>AEBObjectTracker::Comparators::byCollisionTime\<close>.\<close>

definition byCollisionTime :: "DetectedObject \<Rightarrow> DetectedObject \<Rightarrow> bool" where
  "byCollisionTime first_object second_object =
     (let first_collision_time = getCollisionTime first_object;
          second_collision_time = getCollisionTime second_object
      in if isinf first_collision_time \<and> isinf second_collision_time
         then flt (getDistance first_object) (getDistance second_object)
         else if isinf first_collision_time then False
         else if isinf second_collision_time then True
         else flt first_collision_time second_collision_time)"

text \<open>\<^verbatim>\<open>AEBObjectTracker::Comparators::byThreatLevel\<close>.\<close>

definition kThreatLevelFactor :: float where
  "kThreatLevelFactor = float_literal 0.001"

definition byThreatLevel :: "DetectedObject \<Rightarrow> DetectedObject \<Rightarrow> bool" where
  "byThreatLevel first_object second_object =
     (if flt (fabs (fsub (getThreatLevel first_object) (getThreatLevel second_object)))
             kThreatLevelFactor
      then flt (getDistance first_object) (getDistance second_object)
      else fgt (getThreatLevel first_object) (getThreatLevel second_object))"

section \<open>Standard algorithms\<close>

text \<open>
  The comparator requirement of the sorting algorithms: on the elements handed over,
  \<open>cmp\<close> is irreflexive and transitive, and so is the equivalence "neither precedes
  the other" that it induces.
\<close>

definition equiv_under :: "('a \<Rightarrow> 'a \<Rightarrow> bool) \<Rightarrow> 'a \<Rightarrow> 'a \<Rightarrow> bool" where
  "equiv_under cmp a b = (\<not> cmp a b \<and> \<not> cmp b a)"

definition strict_weak_ordering :: "('a \<Rightarrow> 'a \<Rightarrow> bool) \<Rightarrow> 'a list \<Rightarrow> bool" where
  "strict_weak_ordering cmp xs =
     ((\<forall>a\<in>set xs. \<not> cmp a a) \<and>
      (\<forall>a\<in>set xs. \<forall>b\<in>set xs. \<forall>c\<in>set xs. cmp a b \<and> cmp b c \<longrightarrow> cmp a c) \<and>
      (\<forall>a\<in>set xs. \<forall>b\<in>set xs. \<forall>c\<in>set xs.
         equiv_under cmp a b \<and> equiv_under cmp b c \<longrightarrow> equiv_under cmp a c))"

text \<open>
  A sequence is sorted with respect to \<open>cmp\<close> when no element precedes, under \<open>cmp\<close>,
  an element that stands before it.
\<close>

definition sorted_under :: "('a \<Rightarrow> 'a \<Rightarrow> bool) \<Rightarrow> 'a list \<Rightarrow> bool" where
  "sorted_under cmp ys = sorted_wrt (\<lambda>a b. \<not> cmp b a) ys"

text \<open>
  \<^verbatim>\<open>std::sort(first, last, cmp)\<close> is library code: the standard fixes what it returns, not
  how. \<open>std_sort cmp xs ys\<close> says that \<open>ys\<close> is a sequence the call may leave in place
  of \<open>xs\<close>: when \<open>cmp\<close> is a strict weak ordering of the elements, a permutation of
  \<open>xs\<close> that is sorted with respect to \<open>cmp\<close>, the order of equivalent elements being
  unspecified; when it is not, the behaviour is undefined and nothing is promised.
\<close>

definition std_sort :: "('a \<Rightarrow> 'a \<Rightarrow> bool) \<Rightarrow> 'a list \<Rightarrow> 'a list \<Rightarrow> bool" where
  "std_sort cmp xs ys =
     (strict_weak_ordering cmp xs \<longrightarrow> mset ys = mset xs \<and> sorted_under cmp ys)"

text \<open>
  \<^verbatim>\<open>std::partial_sort(first, first + k, last, cmp)\<close>, in the same way: the first \<open>k\<close>
  places hold, sorted, \<open>k\<close> elements that none of the remaining elements precedes; the
  order of the remaining elements is unspecified.
\<close>

definition std_partial_sort ::
    "('a \<Rightarrow> 'a \<Rightarrow> bool) \<Rightarrow> nat \<Rightarrow> 'a list \<Rightarrow> 'a list \<Rightarrow> bool" where
  "std_partial_sort cmp k xs ys =
     (strict_weak_ordering cmp xs \<longrightarrow>
        mset ys = mset xs \<and> sorted_under cmp (take k ys) \<and>
        (\<forall>x\<in>set (take k ys). \<forall>y\<in>set (drop k ys). \<not> cmp y x))"

text \<open>
  \<^verbatim>\<open>std::copy_if(first, last, std::back_inserter(out), pred)\<close>: one pass from the left,
  appending to \<open>out\<close> each element that satisfies \<open>pred\<close>.
\<close>

fun copy_if :: "('a \<Rightarrow> bool) \<Rightarrow> 'a list \<Rightarrow> 'a list \<Rightarrow> 'a list" where
  "copy_if pred [] out = out"
| "copy_if pred (x # xs) out = copy_if pred xs (if pred x then out @ [x] else out)"

text \<open>\<^verbatim>\<open>std::any_of(first, last, pred)\<close>: stops at the first element satisfying \<open>pred\<close>.\<close>

fun any_of :: "('a \<Rightarrow> bool) \<Rightarrow> 'a list \<Rightarrow> bool" where
  "any_of pred [] = False"
| "any_of pred (x # xs) = (if pred x then True else any_of pred xs)"

section \<open>AEBObjectTracker\<close>

text \<open>
  The tracker owns the vector \<^verbatim>\<open>objects_\<close>; the field carries the name of its getter.
  A \<^verbatim>\<open>size_t\<close> argument is a natural number: it is only ever compared with the size of
  the vector.
\<close>

record AEBObjectTracker =
  getObjects :: "DetectedObject list"

definition addObject :: "DetectedObject \<Rightarrow> AEBObjectTracker \<Rightarrow> AEBObjectTracker" where
  "addObject object t = t\<lparr>getObjects := getObjects t @ [object]\<rparr>"

text \<open>
  The sorting member functions change \<^verbatim>\<open>objects_\<close> in place. Each is a relation between
  the tracker before the call and a tracker the call may leave.
\<close>

definition sortByCollisionTime :: "AEBObjectTracker \<Rightarrow> AEBObjectTracker \<Rightarrow> bool" where
  "sortByCollisionTime t t' = std_sort byCollisionTime (getObjects t) (getObjects t')"

text \<open>
  \<^verbatim>\<open>AEBObjectTracker::sortByThreatLevel\<close> as the second, current definition in
  \<^verbatim>\<open>aeb_tracker.cpp\<close> has it: it hands \<^verbatim>\<open>Comparators::byCollisionTime\<close> to
  \<^verbatim>\<open>std::sort\<close>.
\<close>

definition sortByThreatLevel :: "AEBObjectTracker \<Rightarrow> AEBObjectTracker \<Rightarrow> bool" where
  "sortByThreatLevel t t' = std_sort byCollisionTime (getObjects t) (getObjects t')"

definition partialSortCriticalObjects ::
    "nat \<Rightarrow> AEBObjectTracker \<Rightarrow> AEBObjectTracker \<Rightarrow> bool" where
  "partialSortCriticalObjects max_objects t t' =
     (if getObjects t = [] then t' = t
      else
        let num_to_sort = min max_objects (length (getObjects t))
        in std_partial_sort byCollisionTime num_to_sort (getObjects t) (getObjects t'))"

definition getCriticalObjects :: "nat \<Rightarrow> AEBObjectTracker \<Rightarrow> DetectedObject list" where
  "getCriticalObjects max_objects t =
     (let num_objects = min max_objects (length (getObjects t))
      in take num_objects (getObjects t))"

text \<open>The predicate both threshold queries pass to the standard algorithm.\<close>

definition within_threshold :: "float \<Rightarrow> DetectedObject \<Rightarrow> bool" where
  "within_threshold threshold_seconds obj =
     (\<not> isinf (getCollisionTime obj) \<and> fle (getCollisionTime obj) threshold_seconds)"

definition getObjectsWithinTimeThreshold ::
    "float \<Rightarrow> AEBObjectTracker \<Rightarrow> DetectedObject list" where
  "getObjectsWithinTimeThreshold threshold_seconds t =
     copy_if (within_threshold threshold_seconds) (getObjects t) []"

definition hasCriticalObjects :: "float \<Rightarrow> AEBObjectTracker \<Rightarrow> bool" where
  "hasCriticalObjects threshold_seconds t =
     any_of (within_threshold threshold_seconds) (getObjects t)"

section \<open>The instruction parser of the robot navigator\<close>

datatype Turn = kLeft | kRight

text \<open>\<^verbatim>\<open>Instruction\<close>: a turn and a \<^verbatim>\<open>std::uint32_t\<close> number of steps.\<close>

record Instruction =
  getTurn :: Turn
  getSteps :: "32 word"

text \<open>
  \<^verbatim>\<open>std::stoi(str)\<close> is library code, modelled from the standard: it skips leading white
  space, reads an optional sign and the longest run of decimal digits, and ignores what
  follows. It throws \<^verbatim>\<open>std::invalid_argument\<close> when there is no digit to read and
  \<^verbatim>\<open>std::out_of_range\<close> when the number is not an \<^verbatim>\<open>int\<close>.
\<close>

datatype exception = invalid_argument | out_of_range

definition isspace :: "char \<Rightarrow> bool" where
  "isspace c = (c \<in> set [CHR '' '', CHR 0x09, CHR 0x0A, CHR 0x0B, CHR 0x0C, CHR 0x0D])"

definition isdigit :: "char \<Rightarrow> bool" where
  "isdigit c = (c \<in> set ''0123456789'')"

definition digit_value :: "char \<Rightarrow> int" where
  "digit_value c = of_char c - 48"

definition decimal_value :: "string \<Rightarrow> int" where
  "decimal_value ds = foldl (\<lambda>acc c. 10 * acc + digit_value c) 0 ds"

definition stoi :: "string \<Rightarrow> exception + int" where
  "stoi str =
     (let s = dropWhile isspace str;
          negative = (case s of [] \<Rightarrow> False | c # _ \<Rightarrow> c = CHR ''-'');
          unsigned = (case s of [] \<Rightarrow> [] | c # r \<Rightarrow> if c = CHR ''-'' \<or> c = CHR ''+'' then r else s);
          ds = takeWhile isdigit unsigned
      in if ds = [] then Inl invalid_argument
         else
           let v = (if negative then - decimal_value ds else decimal_value ds)
           in if v < - (2 ^ 31) \<or> 2 ^ 31 - 1 < v then Inl out_of_range else Inr v)"

text \<open>
  The three statements that \<open>parseInstructions\<close> runs on a token, at both places where it
  completes one: the turn from the first character, the steps from \<^verbatim>\<open>std::stoi\<close> of the
  rest, cast to \<^verbatim>\<open>std::uint32_t\<close>. Both places guard against an empty token; on one,
  \<^verbatim>\<open>substr(1)\<close> would throw \<^verbatim>\<open>std::out_of_range\<close>.
\<close>

definition make_instruction :: "string \<Rightarrow> exception + Instruction" where
  "make_instruction current_token =
     (case current_token of
        [] \<Rightarrow> Inl out_of_range
      | c # rest \<Rightarrow>
          let turn = (if c = CHR ''L'' then kLeft else kRight)
          in (case stoi rest of
                Inl e \<Rightarrow> Inl e
              | Inr n \<Rightarrow> Inr \<lparr> getTurn = turn, getSteps = word_of_int n \<rparr>))"

text \<open>
  The loop of \<open>parseInstructions\<close> over the characters still to read, with the token
  under construction and the instructions produced so far; the last equation is the
  code after the loop.
\<close>

fun parse_loop :: "string \<Rightarrow> string \<Rightarrow> Instruction list \<Rightarrow> exception + Instruction list" where
  "parse_loop (c # cs) current_token instructions =
     (if c = CHR '','' then
        (if current_token \<noteq> [] then
           (case make_instruction current_token of
              Inl e \<Rightarrow> Inl e
            | Inr i \<Rightarrow> parse_loop cs [] (instructions @ [i]))
         else parse_loop cs current_token instructions)
      else if c \<noteq> CHR '' '' then parse_loop cs (current_token @ [c]) instructions
      else parse_loop cs current_token instructions)"
| "parse_loop [] current_token instructions =
     (if current_token \<noteq> [] then
        (case make_instruction current_token of
           Inl e \<Rightarrow> Inl e
         | Inr i \<Rightarrow> Inr (instructions @ [i]))
      else Inr instructions)"

definition parseInstructions :: "string \<Rightarrow> exception + Instruction list" where
  "parseInstructions input = parse_loop input [] []"

text \<open>
  What the loop computes, stated apart from it: the input without its spaces is cut at
  the commas, the empty pieces are dropped, and the remaining tokens are converted from
  left to right until one fails.
\<close>

fun comma_fields :: "string \<Rightarrow> string list" where
  "comma_fields [] = [[]]"
| "comma_fields (c # cs) =
     (if c = CHR '','' then [] # comma_fields cs
      else (c # hd (comma_fields cs)) # tl (comma_fields cs))"

definition tokens :: "string \<Rightarrow> string list" where
  "tokens input =
     filter (\<lambda>t. t \<noteq> []) (comma_fields (filter (\<lambda>c. c \<noteq> CHR '' '') input))"

fun convert_all :: "string list \<Rightarrow> exception + Instruction list" where
  "convert_all [] = Inr []"
| "convert_all (t # ts) =
     (case make_instruction t of
        Inl e \<Rightarrow> Inl e
      | Inr i \<Rightarrow> (case convert_all ts of Inl e \<Rightarrow> Inl e | Inr is \<Rightarrow> Inr (i # is)))"

section \<open>Notions used in the statements\<close>

text \<open>The documented range of a threat level: \<open>0.0\<close> to \<open>1.0\<close>.\<close>

definition unit_range :: "float \<Rightarrow> bool" where
  "unit_range x = (fle (Finite 0) x \<and> fle x (Finite 1))"

text \<open>
  The test that \<open>byThreatLevel\<close> makes first: the two threat levels differ by less than
  \<open>kThreatLevelFactor\<close>.
\<close>

definition threat_levels_tied :: "DetectedObject \<Rightarrow> DetectedObject \<Rightarrow> bool" where
  "threat_levels_tied a b =
     flt (fabs (fsub (getThreatLevel a) (getThreatLevel b))) kThreatLevelFactor"

text \<open>
  The rank that \<open>byCollisionTime\<close> compares. Objects with a collision
  time that is not infinite come first, by collision time; the others follow, by
  distance. An object is rankable when the value compared is not NaN.
\<close>

fun float_key :: "float \<Rightarrow> int \<times> real" where
  "float_key NInf = (- 1, 0)"
| "float_key (Finite r) = (0, r)"
| "float_key PInf = (1, 0)"
| "float_key NaN = (2, 0)"

definition collision_key :: "DetectedObject \<Rightarrow> nat \<times> int \<times> real" where
  "collision_key obj =
     (if isinf (getCollisionTime obj) then (1, float_key (getDistance obj))
      else (0, float_key (getCollisionTime obj)))"

definition rankable :: "DetectedObject \<Rightarrow> bool" where
  "rankable obj =
     (if isinf (getCollisionTime obj) then getDistance obj \<noteq> NaN
      else getCollisionTime obj \<noteq> NaN)"

section \<open>Comparisons and rounding of single-precision values\<close>

text \<open>
  The two exponent searches are unfolded on demand only; \<open>round_eval\<close> evaluates a
  rounding at a given number, \<open>construct_simps\<close> a construction at given inputs.
\<close>

declare exp_up.simps [simp del] exp_down.simps [simp del]

lemmas round_eval =
  float_literal_def round32_def round_magnitude_def quantum_def binade_def round_half_even_def
  exp_up.simps exp_down.simps Let_def

lemmas construct_simps = DetectedObject_new_def round_eval

lemmas object_simps =
  DetectedObject_new_def calculateThreatLevel_def std_max_def fsub_def fgt_def round_eval

lemma flt_irrefl [simp]: "\<not> flt a a"
  by (cases a) auto

lemma flt_asym: "flt a b \<Longrightarrow> \<not> flt b a"
  by (cases a; cases b) auto

lemma flt_trans: "flt a b \<Longrightarrow> flt b c \<Longrightarrow> flt a c"
  by (cases a; cases b; cases c) auto

lemma fle_trans: "fle a b \<Longrightarrow> fle b c \<Longrightarrow> fle a c"
  by (cases a; cases b; cases c) auto

lemma round32_zero [simp]: "round32 0 = Finite 0"
  by (simp add: round32_def)

lemma round32_minus: "round32 (- x) = fneg (round32 x)"
  by (simp add: round32_def)

lemma fabs_fneg [simp]: "fabs (fneg a) = fabs a"
  by (cases a) auto

lemma fabs_fsub_commute: "fabs (fsub a b) = fabs (fsub b a)"
proof (cases a; cases b)
  fix x y assume "a = Finite x" "b = Finite y"
  then show ?thesis
    using round32_minus [of "x - y"] by (simp add: fsub_def)
qed (auto simp: fsub_def)

lemma round_half_even_nonneg: "0 \<le> y \<Longrightarrow> 0 \<le> round_half_even y"
  by (auto simp: round_half_even_def Let_def)

lemma round_half_even_le: "y \<le> of_int n \<Longrightarrow> round_half_even y \<le> n"
  unfolding round_half_even_def Let_def
  by (auto; linarith)

lemma exp_down_bound:
  "0 < m \<Longrightarrow> m < 2 \<Longrightarrow> exp_down m e \<le> e \<and> m * 2 powi e < 2 powi (exp_down m e + 1) \<and>
     (m < 1 \<and> - 126 < e \<longrightarrow> exp_down m e < e)"
proof (induction m e rule: exp_down.induct)
  case (1 m e)
  show ?case
  proof (cases "m < 1 \<and> - 126 < e")
    case True
    then have eq: "exp_down m e = exp_down (2 * m) (e - 1)"
      by (simp add: exp_down.simps [of m e])
    have "exp_down (2 * m) (e - 1) \<le> e - 1 \<and>
        2 * m * 2 powi (e - 1) < 2 powi (exp_down (2 * m) (e - 1) + 1)"
      using "1.IH" [OF True] "1.prems" True by simp
    moreover have "2 * m * 2 powi (e - 1) = m * 2 powi e"
      by (simp add: power_int_diff)
    ultimately show ?thesis
      using True by (simp add: eq)
  next
    case False
    then have eq: "exp_down m e = e"
      by (subst exp_down.simps) auto
    have "m * 2 powi e < 2 * 2 powi e"
      using "1.prems" by simp
    also have "\<dots> = 2 powi (e + 1)"
      by (simp add: power_int_add)
    finally show ?thesis
      using False by (simp add: eq)
  qed
qed

lemma binade_below_two:
  assumes "0 < a" "a < 2"
  shows "binade a \<le> 0" and "a < 2 powi (binade a + 1)" and "a < 1 \<Longrightarrow> binade a \<le> - 1"
proof -
  show "binade a \<le> 0"
    using assms exp_down_bound [of a 0] by (simp add: binade_def exp_up.simps [of a 0])
  show "a < 2 powi (binade a + 1)"
    using assms exp_down_bound [of a 0] by (simp add: binade_def exp_up.simps [of a 0])
  show "binade a \<le> - 1" if "a < 1"
    using assms that exp_down_bound [of a 0] by (simp add: binade_def)
qed

lemma quantum_pos: "0 < quantum a"
  by (simp add: quantum_def)

lemma round_magnitude_nonneg: "0 \<le> a \<Longrightarrow> 0 \<le> round_magnitude a"
  using quantum_pos [of a] by (simp add: round_magnitude_def round_half_even_nonneg)

lemma round_magnitude_le:
  assumes "0 < a" "a < 2"
  shows "round_magnitude a \<le> 2 powi (binade a + 1)"
proof -
  let ?q = "quantum a"
  have q: "0 < ?q"
    by (rule quantum_pos)
  have split: "2 powi (binade a + 1) = 2 ^ 24 * ?q"
  proof -
    have "binade a + 1 = 24 + (binade a - 23)"
      by simp
    then have "(2::real) powi (binade a + 1) = 2 powi (24 + (binade a - 23))"
      by (simp only:)
    also have "\<dots> = 2 powi 24 * 2 powi (binade a - 23)"
      by (rule power_int_add) simp
    finally show ?thesis
      by (simp add: quantum_def)
  qed
  have "a < 2 ^ 24 * ?q"
    using binade_below_two(2) [OF assms] split by simp
  then have "a / ?q < 2 ^ 24"
    using q by (simp add: pos_divide_less_eq)
  then have "a / ?q \<le> of_int (2 ^ 24)"
    by simp
  then have "round_half_even (a / ?q) \<le> 2 ^ 24"
    by (rule round_half_even_le)
  then have "of_int (round_half_even (a / ?q)) \<le> (2 ^ 24 :: real)"
    by (metis of_int_le_iff of_int_numeral of_int_power)
  then have "of_int (round_half_even (a / ?q)) * ?q \<le> 2 ^ 24 * ?q"
    using q by (simp only: mult_le_cancel_right_pos)
  then show ?thesis
    by (simp only: round_magnitude_def split)
qed

lemma round_magnitude_le_two:
  assumes "0 < a" "a \<le> 2"
  shows "round_magnitude a \<le> 2"
proof (cases "a = 2")
  case True
  then show ?thesis
    by (simp add: round_eval)
next
  case False
  with assms have lt: "a < 2"
    by simp
  have "round_magnitude a \<le> 2 powi (binade a + 1)"
    using assms(1) lt by (rule round_magnitude_le)
  also have "\<dots> \<le> 2 powi 1"
    using binade_below_two(1) [OF assms(1) lt] by (intro power_int_increasing) simp_all
  finally show ?thesis
    by simp
qed

lemma round_magnitude_le_one:
  assumes "0 < a" "a \<le> 1"
  shows "round_magnitude a \<le> 1"
proof (cases "a = 1")
  case True
  then show ?thesis
    by (simp add: round_eval)
next
  case False
  with assms have lt: "a < 1"
    by simp
  then have lt2: "a < 2"
    by simp
  have "round_magnitude a \<le> 2 powi (binade a + 1)"
    using assms(1) lt2 by (rule round_magnitude_le)
  also have "\<dots> \<le> 2 powi 0"
    using binade_below_two(3) [OF assms(1) lt2 lt] by (intro power_int_increasing) simp_all
  finally show ?thesis
    by simp
qed

lemma round32_not_NaN [simp]: "round32 x \<noteq> NaN"
  by (simp add: round32_def)

lemma round32_nonneg: "0 \<le> x \<Longrightarrow> fle (Finite 0) (round32 x)"
  using round_magnitude_nonneg [of "\<bar>x\<bar>"] by (simp add: round32_def)

lemma round32_nonpos: "x \<le> 0 \<Longrightarrow> fle (round32 x) (Finite 0)"
  using round_magnitude_nonneg [of "\<bar>x\<bar>"] by (simp add: round32_def)

lemma round32_le_one: "x \<le> 1 \<Longrightarrow> fle (round32 x) (Finite 1)"
proof (cases "0 < x")
  case True
  assume "x \<le> 1"
  with True have "round_magnitude \<bar>x\<bar> \<le> 1"
    by (simp add: round_magnitude_le_one)
  moreover have "(1::real) < 2 powi 128"
    by simp
  ultimately show ?thesis
    using True by (simp add: round32_def)
next
  case False
  then have "fle (round32 x) (Finite 0)"
    by (simp add: round32_nonpos)
  then show ?thesis
    by (rule fle_trans) simp
qed

lemma round32_le_two: "x \<le> 2 \<Longrightarrow> fle (round32 x) (Finite 2)"
proof (cases "0 < x")
  case True
  assume "x \<le> 2"
  with True have "round_magnitude \<bar>x\<bar> \<le> 2"
    by (simp add: round_magnitude_le_two)
  moreover have "(2::real) < 2 powi 128"
    by simp
  ultimately show ?thesis
    using True by (simp add: round32_def)
next
  case False
  then have "fle (round32 x) (Finite 0)"
    by (simp add: round32_nonpos)
  then show ?thesis
    by (rule fle_trans) simp
qed

text \<open>The two literals that are no binary32 numbers, as the compiler rounds them.\<close>

lemma threshold_value: "float_literal 0.1 = Finite (13421773 / 134217728)"
  by (simp add: round_eval)

lemma epsilon_value: "kThreatLevelFactor = Finite (8589935 / 8589934592)"
  by (simp add: kThreatLevelFactor_def round_eval)

text \<open>
  The inputs of the examples below that are not whole numbers are binary32 numbers, and
  so is what rounding returns for the two literals.
\<close>

lemma example_inputs_binary32:
  "binary32 (- 3.5) \<and> binary32 (- 0.5) \<and> binary32 (10225 / 64) \<and> binary32 (5105 / 16) \<and>
   binary32 (13421773 / 134217728) \<and> binary32 (8589935 / 8589934592) \<and>
   binary32 300000000549775575777803994281145270272"
  by (simp add: binary32_def round_eval)

section \<open>The collision-time comparator\<close>

text \<open>
  Claim C2. \<open>byCollisionTime a b\<close> is: \<open>a.distance < b.distance\<close> when both collision
  times are infinite; false when only the collision time of \<open>a\<close> is infinite; true when
  only that of \<open>b\<close> is infinite; \<open>a.collisionTime < b.collisionTime\<close> when neither is. So
  an object whose collision time is not infinite always precedes one whose collision time
  is infinite, whatever the distances. Infinite is what \<^verbatim>\<open>std::isinf\<close> tests: either
  infinity.
\<close>

theorem byCollisionTime_cases:
  "(isinf (getCollisionTime a) \<and> isinf (getCollisionTime b) \<longrightarrow>
      byCollisionTime a b = flt (getDistance a) (getDistance b)) \<and>
   (isinf (getCollisionTime a) \<and> \<not> isinf (getCollisionTime b) \<longrightarrow> \<not> byCollisionTime a b) \<and>
   (\<not> isinf (getCollisionTime a) \<and> isinf (getCollisionTime b) \<longrightarrow> byCollisionTime a b) \<and>
   (\<not> isinf (getCollisionTime a) \<and> \<not> isinf (getCollisionTime b) \<longrightarrow>
      byCollisionTime a b = flt (getCollisionTime a) (getCollisionTime b))"
  by (simp add: byCollisionTime_def Let_def)

text \<open>
  The four cases on the objects of the repository's unit tests
  (\<^verbatim>\<open>AEBComparators.InfiniteCollisionTime\<close>, \<^verbatim>\<open>AEBComparators.FiniteCollitionTime\<close>).
\<close>

theorem byCollisionTime_cases_witness:
  "byCollisionTime (DetectedObject_new 1 (Finite 9) (Finite 0))
     (DetectedObject_new 3 (Finite 12) (Finite 0)) \<and>
   \<not> byCollisionTime (DetectedObject_new 1 (Finite 9) (Finite 0))
     (DetectedObject_new 2 (Finite 5) (Finite (- 3.5))) \<and>
   byCollisionTime (DetectedObject_new 2 (Finite 5) (Finite (- 3.5)))
     (DetectedObject_new 1 (Finite 9) (Finite 0)) \<and>
   byCollisionTime (DetectedObject_new 1 (Finite 10) (Finite (- 5)))
     (DetectedObject_new 2 (Finite 15) (Finite (- 3)))"
proof -
  let ?o1 = "DetectedObject_new 1 (Finite 9) (Finite 0)"
  let ?o2 = "DetectedObject_new 2 (Finite 5) (Finite (- 3.5))"
  let ?o3 = "DetectedObject_new 3 (Finite 12) (Finite 0)"
  let ?p1 = "DetectedObject_new 1 (Finite 10) (Finite (- 5))"
  let ?p2 = "DetectedObject_new 2 (Finite 15) (Finite (- 3))"
  have inf1: "isinf (getCollisionTime ?o1)" and inf3: "isinf (getCollisionTime ?o3)"
    and fin2: "\<not> isinf (getCollisionTime ?o2)"
    and finp1: "\<not> isinf (getCollisionTime ?p1)" and finp2: "\<not> isinf (getCollisionTime ?p2)"
    by (simp_all add: construct_simps)
  have "byCollisionTime ?o1 ?o3 = flt (getDistance ?o1) (getDistance ?o3)"
    using byCollisionTime_cases [of ?o1 ?o3] inf1 inf3 by blast
  then have c1: "byCollisionTime ?o1 ?o3"
    by (simp add: construct_simps)
  have c2: "\<not> byCollisionTime ?o1 ?o2"
    using byCollisionTime_cases [of ?o1 ?o2] inf1 fin2 by blast
  have c3: "byCollisionTime ?o2 ?o1"
    using byCollisionTime_cases [of ?o2 ?o1] inf1 fin2 by blast
  have "byCollisionTime ?p1 ?p2 = flt (getCollisionTime ?p1) (getCollisionTime ?p2)"
    using byCollisionTime_cases [of ?p1 ?p2] finp1 finp2 by blast
  then have c4: "byCollisionTime ?p1 ?p2"
    by (simp add: construct_simps)
  from c1 c2 c3 c4 show ?thesis
    by blast
qed

section \<open>Construction\<close>

text \<open>
  Claim C5. The collision time of a constructed object is \<open>distance / -relativeVelocity\<close>
  when \<open>relativeVelocity < -0.1\<close> and positive infinity otherwise. The comparison is the
  one of the source, with its literal \<^verbatim>\<open>-0.1f\<close>: the binary32 number
  \<open>-13421773/134217728\<close>, just below \<open>-1/10\<close>. The quotient is the binary32 one: for finite
  operands the exact quotient rounded, an infinity when that overflows. The
  default-constructed object is \<open>(0, 0, 0)\<close> with collision time \<open>+\<infinity>\<close> and threat level 0.
\<close>

theorem collisionTime_constructed:
  "getCollisionTime (DetectedObject_new obj_id distance rel_vel) =
     (if flt rel_vel (fneg (float_literal 0.1)) then fdiv distance (fneg rel_vel) else PInf) \<and>
   flt (Finite v) (fneg (float_literal 0.1)) = (v < - (13421773 / 134217728)) \<and>
   (v < - (13421773 / 134217728) \<longrightarrow>
      getCollisionTime (DetectedObject_new obj_id (Finite d) (Finite v)) =
        round32 (d / (- v))) \<and>
   (\<not> v < - (13421773 / 134217728) \<longrightarrow>
      getCollisionTime (DetectedObject_new obj_id (Finite d) (Finite v)) = PInf) \<and>
   getId DetectedObject_default = 0 \<and>
   getDistance DetectedObject_default = Finite 0 \<and>
   getRelativeVelocity DetectedObject_default = Finite 0 \<and>
   getCollisionTime DetectedObject_default = PInf \<and>
   getThreatLevel DetectedObject_default = Finite 0"
  by (simp add: DetectedObject_new_def DetectedObject_default_def calculateThreatLevel_def
      fgt_def threshold_value Let_def)

text \<open>
  At \<^verbatim>\<open>DetectedObject(1, 50.0f, -10.0f)\<close>, collision time 5; at
  \<^verbatim>\<open>DetectedObject(3, 100.0f, 5.0f)\<close>, which recedes; at
  \<^verbatim>\<open>DetectedObject(1, 10.0f, -0.1f)\<close>, whose relative velocity is the threshold itself and
  not below it; and at \<^verbatim>\<open>DetectedObject(2, 3e38f, -0.5f)\<close>, whose quotient overflows.
\<close>

theorem collisionTime_constructed_witness:
  "getCollisionTime (DetectedObject_new 1 (Finite 50) (Finite (- 10))) = Finite 5 \<and>
   getCollisionTime (DetectedObject_new 3 (Finite 100) (Finite 5)) = PInf \<and>
   getCollisionTime (DetectedObject_new 1 (Finite 10) (fneg (float_literal 0.1))) = PInf \<and>
   getCollisionTime (DetectedObject_new 2 (float_literal (3 * 10 ^ 38)) (Finite (- 0.5))) = PInf"
proof -
  have a: "(- 10 :: real) < - (13421773 / 134217728)"
    and b: "\<not> (5 :: real) < - (13421773 / 134217728)"
    and c: "\<not> (- (13421773 / 134217728) :: real) < - (13421773 / 134217728)"
    and d: "(- 0.5 :: real) < - (13421773 / 134217728)"
    by simp_all
  have lit: "fneg (float_literal 0.1) = Finite (- (13421773 / 134217728))"
    by (simp add: threshold_value)
  have big: "float_literal (3 * 10 ^ 38) = Finite 300000000549775575777803994281145270272"
    by (simp add: round_eval)
  have "getCollisionTime (DetectedObject_new 1 (Finite 50) (Finite (- 10))) =
      round32 (50 / (- (- 10)))"
    using collisionTime_constructed [of 1 "Finite 50" "Finite (- 10)" "- 10" 50] a by blast
  then have first: "getCollisionTime (DetectedObject_new 1 (Finite 50) (Finite (- 10))) = Finite 5"
    by (simp add: round_eval)
  have second: "getCollisionTime (DetectedObject_new 3 (Finite 100) (Finite 5)) = PInf"
    using collisionTime_constructed [of 3 "Finite 100" "Finite 5" 5 100] b by blast
  have "getCollisionTime
      (DetectedObject_new 1 (Finite 10) (Finite (- (13421773 / 134217728)))) = PInf"
    using collisionTime_constructed
      [of 1 "Finite 10" "Finite (- (13421773 / 134217728))" "- (13421773 / 134217728)" 10] c
    by blast
  then have third:
    "getCollisionTime (DetectedObject_new 1 (Finite 10) (fneg (float_literal 0.1))) = PInf"
    by (simp only: lit)
  have "getCollisionTime
      (DetectedObject_new 2 (Finite 300000000549775575777803994281145270272) (Finite (- 0.5))) =
      round32 (300000000549775575777803994281145270272 / (- (- 0.5)))"
    using collisionTime_constructed
      [of 2 "Finite 300000000549775575777803994281145270272" "Finite (- 0.5)" "- 0.5"
        300000000549775575777803994281145270272] d
    by blast
  then have fourth:
    "getCollisionTime (DetectedObject_new 2 (float_literal (3 * 10 ^ 38)) (Finite (- 0.5))) = PInf"
    by (simp add: big round_eval)
  from first second third fourth show ?thesis
    by blast
qed

section \<open>The threat level\<close>

text \<open>
  Apart from one pair of inputs, the threat level of a constructed object lies between 0
  and 1, NaN and infinite inputs included: rounding keeps a value between 0 and 1, or
  between 0 and 2, where it is.
\<close>

lemma unit_range_Finite: "unit_range x \<Longrightarrow> \<exists>r. x = Finite r \<and> 0 \<le> r \<and> r \<le> 1"
  by (cases x) (auto simp: unit_range_def)

lemma factor_range:
  assumes "fle (Finite 0) y"
  shows "unit_range (std_max (Finite 0) (fsub (Finite 1) y))"
proof -
  have le: "fle (fsub (Finite 1) y) (Finite 1)"
  proof (cases y)
    case (Finite r)
    with assms have "1 + - r \<le> 1"
      by simp
    then show ?thesis
      using Finite by (simp add: fsub_def round32_le_one)
  qed (use assms in \<open>simp_all add: fsub_def\<close>)
  then show ?thesis
    by (cases "fsub (Finite 1) y") (auto simp: std_max_def unit_range_def)
qed

lemma quotient_nonneg:
  assumes "0 \<le> x" "0 < c"
  shows "fle (Finite 0) (fdiv (Finite x) (Finite c))"
  using assms by (simp add: round32_nonneg)

lemma average_range:
  assumes "unit_range a" "unit_range b"
  shows "unit_range (fdiv (fadd a b) (Finite 2))"
proof -
  obtain p q where a: "a = Finite p" "0 \<le> p" "p \<le> 1" and b: "b = Finite q" "0 \<le> q" "q \<le> 1"
    using assms by (blast dest: unit_range_Finite)
  have "fle (Finite 0) (round32 (p + q))" and "fle (round32 (p + q)) (Finite 2)"
    using a b by (simp_all add: round32_nonneg round32_le_two)
  then obtain s where s: "round32 (p + q) = Finite s" "0 \<le> s" "s \<le> 2"
    by (cases "round32 (p + q)") auto
  have "fle (Finite 0) (round32 (s / 2))" and "fle (round32 (s / 2)) (Finite 1)"
    using s by (simp_all add: round32_nonneg round32_le_one)
  then show ?thesis
    using a b s by (simp add: unit_range_def)
qed

lemma threat_finite:
  assumes "0 \<le> d" "0 \<le> c"
  shows "unit_range (calculateThreatLevel (Finite d) (Finite c))"
proof -
  have "unit_range (std_max (Finite 0) (fsub (Finite 1) (fdiv (Finite d) (Finite 100))))"
    using assms(1) by (intro factor_range quotient_nonneg) simp_all
  moreover have "unit_range (std_max (Finite 0) (fsub (Finite 1) (fdiv (Finite c) (Finite 10))))"
    using assms(2) by (intro factor_range quotient_nonneg) simp_all
  ultimately have "unit_range (fdiv (fadd
      (std_max (Finite 0) (fsub (Finite 1) (fdiv (Finite d) (Finite 100))))
      (std_max (Finite 0) (fsub (Finite 1) (fdiv (Finite c) (Finite 10))))) (Finite 2))"
    by (rule average_range)
  then show ?thesis
    by (simp add: calculateThreatLevel_def Let_def unit_range_def)
qed

lemma threat_early:
  assumes "fgt ct (Finite 10) \<or> flt ct (Finite 1)"
  shows "unit_range (calculateThreatLevel distance ct)"
  using assms by (auto simp: calculateThreatLevel_def unit_range_def)

lemma threat_approaching:
  assumes "v < - (13421773 / 134217728)"
  shows "unit_range (calculateThreatLevel (Finite d) (round32 (d / (- v))))"
proof (cases "round32 (d / (- v))")
  case (Finite c)
  show ?thesis
  proof (cases "c < 1 \<or> 10 < c")
    case True
    then show ?thesis
      unfolding Finite by (intro threat_early) (auto simp: fgt_def)
  next
    case False
    then have c: "1 \<le> c"
      by simp
    have "0 \<le> d"
    proof (rule ccontr)
      assume "\<not> 0 \<le> d"
      moreover have "0 < - v"
        using assms by simp
      ultimately have "d / (- v) \<le> 0"
        by (intro divide_nonpos_pos) simp_all
      then have "fle (round32 (d / (- v))) (Finite 0)"
        by (rule round32_nonpos)
      then show False
        using Finite c by simp
    qed
    then show ?thesis
      unfolding Finite using c by (intro threat_finite) simp_all
  qed
qed (auto intro!: threat_early simp: fgt_def)

lemma threat_range:
  assumes "\<not> (distance = NInf \<and> rel_vel = NInf)"
  shows "unit_range (getThreatLevel (DetectedObject_new obj_id distance rel_vel))"
proof (cases "flt rel_vel (fneg (float_literal 0.1))")
  case False
  then show ?thesis
    by (simp add: DetectedObject_new_def calculateThreatLevel_def fgt_def unit_range_def)
next
  case True
  show ?thesis
  proof (cases rel_vel)
    case (Finite v)
    with True have v: "v < - (13421773 / 134217728)"
      by (simp add: threshold_value)
    show ?thesis
    proof (cases distance)
      case d: (Finite d)
      have "unit_range (calculateThreatLevel (Finite d) (round32 (d / (- v))))"
        using v by (rule threat_approaching)
      then show ?thesis
        using d Finite v True by (simp add: construct_simps)
    next
      case PInf
      then show ?thesis
        using Finite v True
        by (simp add: DetectedObject_new_def calculateThreatLevel_def fgt_def unit_range_def)
    next
      case NInf
      then show ?thesis
        using Finite v True
        by (simp add: DetectedObject_new_def calculateThreatLevel_def fgt_def unit_range_def)
    next
      case NaN
      then show ?thesis
        using Finite v True
        by (simp add: DetectedObject_new_def calculateThreatLevel_def fgt_def std_max_def
            fsub_def unit_range_def)
    qed
  next
    case NInf
    with assms True show ?thesis
      by (cases distance)
        (simp_all add: DetectedObject_new_def calculateThreatLevel_def fgt_def std_max_def
          fsub_def unit_range_def)
  qed (use True in \<open>simp_all add: threshold_value\<close>)
qed

text \<open>
  Claim C4 says that the threat level of every constructed object, nonsensical inputs
  included, lies in \<open>[0.0, 1.0]\<close>. For \<^verbatim>\<open>DetectedObject(1, -INFINITY, -INFINITY)\<close> the
  collision time is \<open>-\<infinity> / +\<infinity>\<close>, NaN; both early returns compare false; the
  distance factor is \<open>max(0, 1 - (-\<infinity>)) = +\<infinity>\<close> and the time factor \<open>max(0, NaN) = 0\<close>;
  the threat level is \<open>+\<infinity>\<close>.
\<close>

theorem threatLevel_both_negative_infinity:
  "getCollisionTime (DetectedObject_new 1 NInf NInf) = NaN \<and>
   getThreatLevel (DetectedObject_new 1 NInf NInf) = PInf \<and>
   \<not> unit_range (getThreatLevel (DetectedObject_new 1 NInf NInf))"
  by (simp add: object_simps unit_range_def)

section \<open>The member comparison\<close>

text \<open>
  Claim C10 says that \<open>operator<\<close> is false in both directions for every two objects
  with infinite collision times. With a distance of \<open>-\<infinity>\<close> an approaching object has
  the collision time \<open>-\<infinity> / 1 = -\<infinity>\<close>, which \<open>operator<\<close> puts before the \<open>+\<infinity>\<close> of
  an object that stands still.
\<close>

theorem operator_less_infinite_counterexample:
  "isinf (getCollisionTime (DetectedObject_new 1 NInf (Finite (- 1)))) \<and>
   isinf (getCollisionTime (DetectedObject_new 2 (Finite 5) (Finite 0))) \<and>
   operator_less (DetectedObject_new 1 NInf (Finite (- 1)))
     (DetectedObject_new 2 (Finite 5) (Finite 0))"
  by (simp add: operator_less_def construct_simps)

text \<open>
  Claim C10, amended. \<open>operator<\<close> compares the two collision times and nothing else.
  When they are the same infinity (both \<open>+\<infinity>\<close>, the value the constructor gives an
  object that does not approach, or both \<open>-\<infinity>\<close>) it is false in both directions,
  whatever the distances; and there are two such objects, of different distances, that
  \<open>byCollisionTime\<close> does order.
\<close>

theorem operator_less_raw:
  "operator_less a b = flt (getCollisionTime a) (getCollisionTime b) \<and>
   (isinf (getCollisionTime a) \<and> getCollisionTime b = getCollisionTime a \<longrightarrow>
      \<not> operator_less a b \<and> \<not> operator_less b a) \<and>
   (\<exists>x y. getCollisionTime x = PInf \<and> getCollisionTime y = PInf \<and>
      getDistance x \<noteq> getDistance y \<and>
      \<not> operator_less x y \<and> \<not> operator_less y x \<and> byCollisionTime x y)"
proof -
  let ?x = "DetectedObject_new 1 (Finite 9) (Finite 0)"
  let ?y = "DetectedObject_new 3 (Finite 12) (Finite 0)"
  have "getCollisionTime ?x = PInf \<and> getCollisionTime ?y = PInf \<and>
      getDistance ?x \<noteq> getDistance ?y \<and>
      \<not> operator_less ?x ?y \<and> \<not> operator_less ?y ?x \<and> byCollisionTime ?x ?y"
    by (simp add: operator_less_def byCollisionTime_def construct_simps)
  then have "\<exists>x y. getCollisionTime x = PInf \<and> getCollisionTime y = PInf \<and>
      getDistance x \<noteq> getDistance y \<and>
      \<not> operator_less x y \<and> \<not> operator_less y x \<and> byCollisionTime x y"
    by blast
  then show ?thesis
    by (auto simp: operator_less_def)
qed

theorem operator_less_raw_witness:
  "\<not> operator_less (DetectedObject_new 1 (Finite 9) (Finite 0))
       (DetectedObject_new 3 (Finite 12) (Finite 0)) \<and>
   \<not> operator_less (DetectedObject_new 3 (Finite 12) (Finite 0))
       (DetectedObject_new 1 (Finite 9) (Finite 0)) \<and>
   byCollisionTime (DetectedObject_new 1 (Finite 9) (Finite 0))
     (DetectedObject_new 3 (Finite 12) (Finite 0))"
proof -
  let ?x = "DetectedObject_new 1 (Finite 9) (Finite 0)"
  let ?y = "DetectedObject_new 3 (Finite 12) (Finite 0)"
  have h: "isinf (getCollisionTime ?x) \<and> getCollisionTime ?y = getCollisionTime ?x"
    by (simp add: construct_simps)
  have "\<not> operator_less ?x ?y \<and> \<not> operator_less ?y ?x"
    using operator_less_raw [of ?x ?y] h by blast
  moreover have "byCollisionTime ?x ?y"
    by (simp add: byCollisionTime_def construct_simps)
  ultimately show ?thesis
    by blast
qed

section \<open>The threat-level comparator\<close>

text \<open>
  Claim C6 says that \<open>byThreatLevel\<close> is a strict weak ordering. Three objects show that
  it is not transitive. Their collision times are 10, 10225/1024 and 5105/512, their
  distances 100, 159.765625 and 319.0625, their threat levels 0, 3/4096 and 3/2048: the
  first two and the last two threat levels differ by less than 0.001, so distance
  decides and the nearer object precedes; the first and the third differ by more, so
  the threat level decides and the third precedes the first. Every value here is a
  binary32 number, except the quotient \<open>distance / 100\<close> of the third object, which
  is rounded to a number above 3, so that \<^verbatim>\<open>std::max\<close> returns 0.
\<close>

theorem byThreatLevel_not_transitive:
  "byThreatLevel (DetectedObject_new 1 (Finite 100) (Finite (- 10)))
     (DetectedObject_new 2 (Finite (10225 / 64)) (Finite (- 16))) \<and>
   byThreatLevel (DetectedObject_new 2 (Finite (10225 / 64)) (Finite (- 16)))
     (DetectedObject_new 3 (Finite (5105 / 16)) (Finite (- 32))) \<and>
   \<not> byThreatLevel (DetectedObject_new 1 (Finite 100) (Finite (- 10)))
     (DetectedObject_new 3 (Finite (5105 / 16)) (Finite (- 32))) \<and>
   byThreatLevel (DetectedObject_new 3 (Finite (5105 / 16)) (Finite (- 32)))
     (DetectedObject_new 1 (Finite 100) (Finite (- 10)))"
  by (simp add: byThreatLevel_def kThreatLevelFactor_def object_simps)

text \<open>
  Claim C6, amended. \<open>byThreatLevel\<close> is irreflexive and asymmetric on all objects. It
  is transitive on three objects whose threat levels are, pair by pair, all within
  0.001 of each other or all at least 0.001 apart.
\<close>

theorem byThreatLevel_order:
  "\<not> byThreatLevel a a \<and>
   (byThreatLevel a b \<longrightarrow> \<not> byThreatLevel b a) \<and>
   ((threat_levels_tied a b \<and> threat_levels_tied b c \<and> threat_levels_tied a c) \<or>
    (\<not> threat_levels_tied a b \<and> \<not> threat_levels_tied b c \<and> \<not> threat_levels_tied a c) \<longrightarrow>
    byThreatLevel a b \<and> byThreatLevel b c \<longrightarrow> byThreatLevel a c)"
proof (intro conjI impI)
  show "\<not> byThreatLevel a a"
    by (simp add: byThreatLevel_def fgt_def)
  show "\<not> byThreatLevel b a" if "byThreatLevel a b"
    using that
    by (auto simp: byThreatLevel_def fgt_def fabs_fsub_commute [of "getThreatLevel b"]
        dest: flt_asym split: if_splits)
  show "byThreatLevel a c"
    if "(threat_levels_tied a b \<and> threat_levels_tied b c \<and> threat_levels_tied a c) \<or>
        (\<not> threat_levels_tied a b \<and> \<not> threat_levels_tied b c \<and> \<not> threat_levels_tied a c)"
      and "byThreatLevel a b \<and> byThreatLevel b c"
    using that by (auto simp: byThreatLevel_def threat_levels_tied_def fgt_def dest: flt_trans)
qed

text \<open>
  On objects of the unit test \<^verbatim>\<open>AEBComparators.FiniteCollisionThreatlevel\<close> and a third,
  farther one: threat levels 0.8875, 0.675 and 0.2.
\<close>

theorem byThreatLevel_order_witness:
  "byThreatLevel (DetectedObject_new 7 (Finite 10) (Finite (- 8)))
     (DetectedObject_new 5 (Finite 80) (Finite (- 10))) \<and>
   \<not> byThreatLevel (DetectedObject_new 4 (Finite 15) (Finite (- 3)))
     (DetectedObject_new 7 (Finite 10) (Finite (- 8)))"
proof -
  let ?a = "DetectedObject_new 7 (Finite 10) (Finite (- 8))"
  let ?b = "DetectedObject_new 4 (Finite 15) (Finite (- 3))"
  let ?c = "DetectedObject_new 5 (Finite 80) (Finite (- 10))"
  have apart: "\<not> threat_levels_tied ?a ?b \<and> \<not> threat_levels_tied ?b ?c \<and>
      \<not> threat_levels_tied ?a ?c"
    by (simp add: threat_levels_tied_def kThreatLevelFactor_def object_simps)
  have ab: "byThreatLevel ?a ?b" and bc: "byThreatLevel ?b ?c"
    by (simp_all add: byThreatLevel_def kThreatLevelFactor_def object_simps)
  from byThreatLevel_order [of ?a ?b ?c] apart ab bc have "byThreatLevel ?a ?c"
    by blast
  moreover from byThreatLevel_order [of ?a ?b] ab have "\<not> byThreatLevel ?b ?a"
    by blast
  ultimately show ?thesis
    by blast
qed

section \<open>Sorting by collision time\<close>

text \<open>
  On rankable objects \<open>byCollisionTime\<close> is the strict order of their ranks, hence a
  strict weak ordering, as \<^verbatim>\<open>std::sort\<close> and \<^verbatim>\<open>std::partial_sort\<close> require.
\<close>

lemma byCollisionTime_key:
  assumes "rankable a" "rankable b"
  shows "byCollisionTime a b = (collision_key a < collision_key b)"
  using assms
  by (cases "getCollisionTime a"; cases "getCollisionTime b";
      cases "getDistance a"; cases "getDistance b")
    (simp_all add: byCollisionTime_def collision_key_def rankable_def Let_def)

lemma equiv_under_key:
  assumes "rankable a" "rankable b"
  shows "equiv_under byCollisionTime a b = (collision_key a = collision_key b)"
  using assms by (auto simp: equiv_under_def byCollisionTime_key)

lemma byCollisionTime_strict_weak_ordering:
  assumes "\<forall>obj\<in>set xs. rankable obj"
  shows "strict_weak_ordering byCollisionTime xs"
  unfolding strict_weak_ordering_def
proof (intro conjI ballI impI)
  fix a assume "a \<in> set xs"
  then show "\<not> byCollisionTime a a" using assms by (simp add: byCollisionTime_key)
next
  fix a b c assume "a \<in> set xs" "b \<in> set xs" "c \<in> set xs"
    and "byCollisionTime a b \<and> byCollisionTime b c"
  then show "byCollisionTime a c" using assms by (auto simp: byCollisionTime_key)
next
  fix a b c assume "a \<in> set xs" "b \<in> set xs" "c \<in> set xs"
    and "equiv_under byCollisionTime a b \<and> equiv_under byCollisionTime b c"
  then show "equiv_under byCollisionTime a c" using assms by (auto simp: equiv_under_key)
qed

lemma sorted_under_key:
  assumes "\<forall>obj\<in>set ys. rankable obj" "sorted_under byCollisionTime ys"
  shows "sorted (map collision_key ys)"
proof -
  have "sorted_wrt (\<lambda>a b. collision_key a \<le> collision_key b) ys"
    using assms(2) unfolding sorted_under_def
  proof (rule sorted_wrt_mono_rel [rotated])
    fix a b assume "a \<in> set ys" "b \<in> set ys" "\<not> byCollisionTime b a"
    then show "collision_key a \<le> collision_key b"
      using assms(1) by (simp add: byCollisionTime_key)
  qed
  then show ?thesis by (simp add: sorted_wrt_map)
qed

lemma key_sorted_under:
  assumes "\<forall>obj\<in>set ys. rankable obj" "sorted (map collision_key ys)"
  shows "sorted_under byCollisionTime ys"
proof -
  have "sorted_wrt (\<lambda>a b. collision_key a \<le> collision_key b) ys"
    using assms(2) by (simp add: sorted_wrt_map)
  then show ?thesis unfolding sorted_under_def
  proof (rule sorted_wrt_mono_rel [rotated])
    fix a b assume "a \<in> set ys" "b \<in> set ys" "collision_key a \<le> collision_key b"
    then show "\<not> byCollisionTime b a"
      using assms(1) by (simp add: byCollisionTime_key)
  qed
qed

lemma sorted_keys_unique:
  fixes f :: "'a \<Rightarrow> 'k::linorder"
  assumes "mset ys = mset xs" "sorted (map f ys)"
  shows "map f ys = sort (map f xs)"
proof -
  have "mset (map f ys) = mset (map f xs)" using assms(1) by simp
  then have "sort (map f xs) = map f ys" using assms(2) by (rule properties_for_sort)
  then show ?thesis by simp
qed

lemma partially_sorted_keys:
  fixes f :: "'a \<Rightarrow> 'k::linorder"
  assumes perm: "mset zs = mset xs"
    and srt: "sorted (map f (take k zs))"
    and low: "\<forall>x\<in>set (take k zs). \<forall>y\<in>set (drop k zs). f x \<le> f y"
  shows "map f (take k zs) = take k (sort (map f xs))"
proof -
  let ?zs' = "take k zs @ sort_key f (drop k zs)"
  have "mset ?zs' = mset (take k zs) + mset (drop k zs)" by simp
  also have "\<dots> = mset (take k zs @ drop k zs)" by (simp only: mset_append)
  also have "\<dots> = mset xs" using perm by (simp only: append_take_drop_id)
  finally have m: "mset ?zs' = mset xs" .
  have "sorted (map f ?zs')"
    using srt low by (auto simp: sorted_append)
  then have eq: "map f ?zs' = sort (map f xs)" using m by (rule sorted_keys_unique [rotated])
  have "take k (map f ?zs') = map f (take k zs)"
    by (cases "k \<le> length zs") (simp_all add: take_map)
  then show ?thesis by (simp only: eq)
qed

lemma key_agreement:
  assumes "\<forall>obj\<in>set as. rankable obj" "\<forall>obj\<in>set bs. rankable obj"
    and "map collision_key as = map collision_key bs"
  shows "list_all2 (equiv_under byCollisionTime) as bs"
proof -
  have "list_all2 (=) (map collision_key as) (map collision_key bs)"
    using assms(3) by (simp add: list.rel_eq)
  then have "list_all2 (\<lambda>a b. collision_key a = collision_key b) as bs"
    by (simp add: list.rel_map)
  then show ?thesis
  proof (rule list.rel_mono_strong)
    fix a b assume "a \<in> set as" "b \<in> set bs" "collision_key a = collision_key b"
    then show "equiv_under byCollisionTime a b"
      using assms(1,2) by (simp add: equiv_under_key)
  qed
qed

text \<open>Both algorithms have an outcome: the stable sort by rank is one.\<close>

lemma sorted_outcome:
  assumes "\<forall>obj\<in>set xs. rankable obj"
  shows "std_sort byCollisionTime xs (sort_key collision_key xs)"
    and "std_partial_sort byCollisionTime k xs (sort_key collision_key xs)"
proof -
  let ?ys = "sort_key collision_key xs"
  have rk: "\<forall>obj\<in>set ?ys. rankable obj" using assms by simp
  have "sorted (map collision_key ?ys)" by (rule sorted_sort_key)
  with rk have s: "sorted_under byCollisionTime ?ys" by (rule key_sorted_under)
  then show "std_sort byCollisionTime xs ?ys" by (simp add: std_sort_def)
  have "sorted_wrt (\<lambda>a b. \<not> byCollisionTime b a) (take k ?ys @ drop k ?ys)"
    using s by (simp add: sorted_under_def)
  then have "sorted_under byCollisionTime (take k ?ys) \<and>
      (\<forall>x\<in>set (take k ?ys). \<forall>y\<in>set (drop k ?ys). \<not> byCollisionTime y x)"
    unfolding sorted_under_def sorted_wrt_append by blast
  then show "std_partial_sort byCollisionTime k xs ?ys" by (simp add: std_partial_sort_def)
qed

lemma prefix_keys_agree:
  assumes rk: "\<forall>obj\<in>set xs. rankable obj"
    and srt: "std_sort byCollisionTime xs ys"
    and part: "std_partial_sort byCollisionTime k xs zs"
  shows "map collision_key (take k ys) = map collision_key (take k zs)"
proof -
  have swo: "strict_weak_ordering byCollisionTime xs"
    using rk by (rule byCollisionTime_strict_weak_ordering)
  from srt swo have my: "mset ys = mset xs" and sy: "sorted_under byCollisionTime ys"
    by (simp_all add: std_sort_def)
  from part swo have mz: "mset zs = mset xs"
    and sz: "sorted_under byCollisionTime (take k zs)"
    and low: "\<forall>x\<in>set (take k zs). \<forall>y\<in>set (drop k zs). \<not> byCollisionTime y x"
    by (simp_all add: std_partial_sort_def)
  have ry: "\<forall>obj\<in>set ys. rankable obj" using rk mset_eq_setD [OF my] by simp
  have rz: "\<forall>obj\<in>set zs. rankable obj" using rk mset_eq_setD [OF mz] by simp
  have rtz: "\<forall>obj\<in>set (take k zs). rankable obj" using rz by (auto dest: in_set_takeD)
  have rdz: "\<forall>obj\<in>set (drop k zs). rankable obj" using rz by (auto dest: in_set_dropD)
  have ky: "map collision_key ys = sort (map collision_key xs)"
    using my sorted_under_key [OF ry sy] by (rule sorted_keys_unique)
  have low': "\<forall>x\<in>set (take k zs). \<forall>y\<in>set (drop k zs). collision_key x \<le> collision_key y"
    using low rtz rdz by (auto simp: byCollisionTime_key not_less)
  have kz: "map collision_key (take k zs) = take k (sort (map collision_key xs))"
    using mz sorted_under_key [OF rtz sz] low' by (rule partially_sorted_keys)
  have "map collision_key (take k ys) = take k (map collision_key ys)"
    by (simp add: take_map)
  also have "\<dots> = take k (sort (map collision_key xs))" by (simp only: ky)
  finally show ?thesis by (simp only: kz)
qed

text \<open>
  Claim C3 says that \<open>sortByCollisionTime\<close> followed by \<open>getCriticalObjects k\<close> returns
  the same objects in the same order as \<open>partialSortCriticalObjects k\<close> followed by
  \<open>getCriticalObjects k\<close>. The objects 1 and 3 below have the collision time 2 (they are
  the tie of \<^verbatim>\<open>AEBOutput::testEdgeCases\<close>), object 2 has the collision time 3. The
  comparator does not order objects 1 and 3, so a sort may leave them in either order:
  the full sort may return the ids 1, 3, 2 and the partial sort for \<open>k = 2\<close> the ids
  3, 1, 2, and then the two prefixes differ.
\<close>

theorem critical_prefix_counterexample:
  "strict_weak_ordering byCollisionTime
     [DetectedObject_new 1 (Finite 20) (Finite (- 10)),
      DetectedObject_new 2 (Finite 30) (Finite (- 10)),
      DetectedObject_new 3 (Finite 40) (Finite (- 20))] \<and>
   sortByCollisionTime
     \<lparr>getObjects = [DetectedObject_new 1 (Finite 20) (Finite (- 10)),
                   DetectedObject_new 2 (Finite 30) (Finite (- 10)),
                   DetectedObject_new 3 (Finite 40) (Finite (- 20))]\<rparr>
     \<lparr>getObjects = [DetectedObject_new 1 (Finite 20) (Finite (- 10)),
                   DetectedObject_new 3 (Finite 40) (Finite (- 20)),
                   DetectedObject_new 2 (Finite 30) (Finite (- 10))]\<rparr> \<and>
   partialSortCriticalObjects 2
     \<lparr>getObjects = [DetectedObject_new 1 (Finite 20) (Finite (- 10)),
                   DetectedObject_new 2 (Finite 30) (Finite (- 10)),
                   DetectedObject_new 3 (Finite 40) (Finite (- 20))]\<rparr>
     \<lparr>getObjects = [DetectedObject_new 3 (Finite 40) (Finite (- 20)),
                   DetectedObject_new 1 (Finite 20) (Finite (- 10)),
                   DetectedObject_new 2 (Finite 30) (Finite (- 10))]\<rparr> \<and>
   getCriticalObjects 2
     \<lparr>getObjects = [DetectedObject_new 1 (Finite 20) (Finite (- 10)),
                   DetectedObject_new 3 (Finite 40) (Finite (- 20)),
                   DetectedObject_new 2 (Finite 30) (Finite (- 10))]\<rparr> \<noteq>
   getCriticalObjects 2
     \<lparr>getObjects = [DetectedObject_new 3 (Finite 40) (Finite (- 20)),
                   DetectedObject_new 1 (Finite 20) (Finite (- 10)),
                   DetectedObject_new 2 (Finite 30) (Finite (- 10))]\<rparr>"
  by (simp add: strict_weak_ordering_def equiv_under_def sortByCollisionTime_def
      partialSortCriticalObjects_def getCriticalObjects_def std_sort_def std_partial_sort_def
      sorted_under_def byCollisionTime_def object_simps)

text \<open>
  Claim C3, amended. For a tracker whose objects are rankable and \<open>k\<close> at most its size,
  both call sequences have an outcome; whatever the outcomes, the two prefixes have
  length \<open>k\<close> and agree place by place up to the comparator (neither object precedes the
  other); and they are the same objects in the same order when no two different stored
  objects are equivalent under the comparator.
\<close>

theorem critical_prefix_agreement:
  assumes rk: "\<forall>obj\<in>set (getObjects t). rankable obj"
    and k: "k \<le> length (getObjects t)"
  shows "(\<exists>t1. sortByCollisionTime t t1) \<and> (\<exists>t2. partialSortCriticalObjects k t t2) \<and>
    (\<forall>t1 t2. sortByCollisionTime t t1 \<and> partialSortCriticalObjects k t t2 \<longrightarrow>
       length (getCriticalObjects k t1) = k \<and>
       list_all2 (equiv_under byCollisionTime)
         (getCriticalObjects k t1) (getCriticalObjects k t2) \<and>
       ((\<forall>a\<in>set (getObjects t). \<forall>b\<in>set (getObjects t).
           equiv_under byCollisionTime a b \<longrightarrow> a = b) \<longrightarrow>
        getCriticalObjects k t1 = getCriticalObjects k t2))"
proof (intro conjI allI impI)
  let ?s = "t\<lparr>getObjects := sort_key collision_key (getObjects t)\<rparr>"
  have "sortByCollisionTime t ?s"
    using sorted_outcome(1) [OF rk] by (simp add: sortByCollisionTime_def)
  then show "\<exists>t1. sortByCollisionTime t t1" ..
  have "partialSortCriticalObjects k t (if getObjects t = [] then t else ?s)"
    using sorted_outcome(2) [OF rk] by (simp add: partialSortCriticalObjects_def Let_def)
  then show "\<exists>t2. partialSortCriticalObjects k t t2" ..
next
  fix t1 t2
  assume out: "sortByCollisionTime t t1 \<and> partialSortCriticalObjects k t t2"
  let ?xs = "getObjects t" and ?ys = "getObjects t1" and ?zs = "getObjects t2"
  have swo: "strict_weak_ordering byCollisionTime ?xs"
    using rk by (rule byCollisionTime_strict_weak_ordering)
  from out have srt: "std_sort byCollisionTime ?xs ?ys"
    by (simp add: sortByCollisionTime_def)
  from out k have part: "std_partial_sort byCollisionTime k ?xs ?zs"
    by (auto simp: partialSortCriticalObjects_def std_partial_sort_def sorted_under_def
        Let_def min_def split: if_splits)
  from srt swo have my: "mset ?ys = mset ?xs" by (simp add: std_sort_def)
  from part swo have mz: "mset ?zs = mset ?xs" by (simp add: std_partial_sort_def)
  have ly: "length ?ys = length ?xs" using my by (rule mset_eq_length)
  have lz: "length ?zs = length ?xs" using mz by (rule mset_eq_length)
  have cy: "getCriticalObjects k t1 = take k ?ys"
    using k ly by (simp add: getCriticalObjects_def Let_def min_def)
  have cz: "getCriticalObjects k t2 = take k ?zs"
    using k lz by (simp add: getCriticalObjects_def Let_def min_def)
  show "length (getCriticalObjects k t1) = k" using k ly by (simp add: cy)
  have sy: "set ?ys = set ?xs" using my by (rule mset_eq_setD)
  have sz: "set ?zs = set ?xs" using mz by (rule mset_eq_setD)
  have ry: "\<forall>obj\<in>set (take k ?ys). rankable obj" using rk sy by (auto dest: in_set_takeD)
  have rz: "\<forall>obj\<in>set (take k ?zs). rankable obj" using rk sz by (auto dest: in_set_takeD)
  have keys: "map collision_key (take k ?ys) = map collision_key (take k ?zs)"
    using rk srt part by (rule prefix_keys_agree)
  show "list_all2 (equiv_under byCollisionTime)
      (getCriticalObjects k t1) (getCriticalObjects k t2)"
    unfolding cy cz using ry rz keys by (rule key_agreement)
  assume distinct: "\<forall>a\<in>set ?xs. \<forall>b\<in>set ?xs. equiv_under byCollisionTime a b \<longrightarrow> a = b"
  have "inj_on collision_key (set ?xs)"
    using distinct rk by (auto simp: inj_on_def equiv_under_key)
  moreover have "set (take k ?ys) \<union> set (take k ?zs) \<subseteq> set ?xs"
    using sy sz by (auto dest: in_set_takeD)
  ultimately have "inj_on collision_key (set (take k ?ys) \<union> set (take k ?zs))"
    by (rule inj_on_subset)
  then have "take k ?ys = take k ?zs" using keys by (simp add: inj_on_map_eq_map)
  then show "getCriticalObjects k t1 = getCriticalObjects k t2" by (simp add: cy cz)
qed

theorem critical_prefix_agreement_witness:
  "length (getCriticalObjects 2
     \<lparr>getObjects = [DetectedObject_new 1 (Finite 20) (Finite (- 10)),
                   DetectedObject_new 3 (Finite 40) (Finite (- 20)),
                   DetectedObject_new 2 (Finite 30) (Finite (- 10))]\<rparr>) = 2 \<and>
   list_all2 (equiv_under byCollisionTime)
     (getCriticalObjects 2
        \<lparr>getObjects = [DetectedObject_new 1 (Finite 20) (Finite (- 10)),
                      DetectedObject_new 3 (Finite 40) (Finite (- 20)),
                      DetectedObject_new 2 (Finite 30) (Finite (- 10))]\<rparr>)
     (getCriticalObjects 2
        \<lparr>getObjects = [DetectedObject_new 3 (Finite 40) (Finite (- 20)),
                      DetectedObject_new 1 (Finite 20) (Finite (- 10)),
                      DetectedObject_new 2 (Finite 30) (Finite (- 10))]\<rparr>)"
proof -
  let ?o1 = "DetectedObject_new 1 (Finite 20) (Finite (- 10))"
  let ?o2 = "DetectedObject_new 2 (Finite 30) (Finite (- 10))"
  let ?o3 = "DetectedObject_new 3 (Finite 40) (Finite (- 20))"
  let ?t = "\<lparr>getObjects = [?o1, ?o2, ?o3]\<rparr>"
  let ?t1 = "\<lparr>getObjects = [?o1, ?o3, ?o2]\<rparr>"
  let ?t2 = "\<lparr>getObjects = [?o3, ?o1, ?o2]\<rparr>"
  have rk: "\<forall>obj\<in>set (getObjects ?t). rankable obj"
    by (simp add: rankable_def construct_simps)
  have k: "2 \<le> length (getObjects ?t)"
    by simp
  have s: "sortByCollisionTime ?t ?t1"
    by (simp add: sortByCollisionTime_def std_sort_def sorted_under_def byCollisionTime_def
        construct_simps)
  have p: "partialSortCriticalObjects 2 ?t ?t2"
    by (simp add: partialSortCriticalObjects_def std_partial_sort_def sorted_under_def
        byCollisionTime_def construct_simps)
  from critical_prefix_agreement [OF rk k] s p show ?thesis
    by blast
qed

section \<open>Sorting by threat level\<close>

lemma two_perm: "mset ys = mset [a, b] \<Longrightarrow> ys = [a, b] \<or> ys = [b, a]"
proof -
  assume m: "mset ys = mset [a, b]"
  then have "length ys = 2" using mset_eq_length by fastforce
  then obtain x y where ys: "ys = [x, y]"
    by (cases ys; cases "tl ys") auto
  with m show ?thesis by (auto simp: add_eq_conv_ex)
qed

text \<open>
  Claim C1 says that \<open>sortByThreatLevel\<close> leaves the sequence sorted with respect to
  \<open>byThreatLevel\<close>. Object 1 stands still one metre away (collision time \<open>+\<infinity>\<close>, threat
  level 0); object 2 approaches from 50 metres at 1 m/s (collision time 50, threat level
  0). \<open>byThreatLevel\<close> puts object 1 first (equal threat levels, smaller distance). The
  call returns object 2 first, the order of \<open>byCollisionTime\<close>, and that sequence is not
  sorted with respect to \<open>byThreatLevel\<close>. Every value here is a binary32 number.
\<close>

theorem sortByThreatLevel_by_collision_time:
  "(\<exists>t'. sortByThreatLevel
      \<lparr>getObjects = [DetectedObject_new 1 (Finite 1) (Finite 0),
                    DetectedObject_new 2 (Finite 50) (Finite (- 1))]\<rparr> t') \<and>
   (\<forall>t'. sortByThreatLevel
      \<lparr>getObjects = [DetectedObject_new 1 (Finite 1) (Finite 0),
                    DetectedObject_new 2 (Finite 50) (Finite (- 1))]\<rparr> t' \<longrightarrow>
      getObjects t' = [DetectedObject_new 2 (Finite 50) (Finite (- 1)),
                       DetectedObject_new 1 (Finite 1) (Finite 0)] \<and>
      \<not> sorted_under byThreatLevel (getObjects t'))"
proof (intro conjI allI impI)
  let ?a = "DetectedObject_new 1 (Finite 1) (Finite 0)"
  let ?b = "DetectedObject_new 2 (Finite 50) (Finite (- 1))"
  let ?t = "\<lparr>getObjects = [?a, ?b]\<rparr>"
  have ba: "byCollisionTime ?b ?a"
    by (simp add: byCollisionTime_def construct_simps)
  have ab: "\<not> byCollisionTime ?a ?b"
    by (simp add: byCollisionTime_def construct_simps)
  have "sortByThreatLevel ?t \<lparr>getObjects = [?b, ?a]\<rparr>"
    using ab by (simp add: sortByThreatLevel_def std_sort_def sorted_under_def)
  then show "\<exists>t'. sortByThreatLevel ?t t'" ..
  fix t' assume out: "sortByThreatLevel ?t t'"
  have "\<forall>obj\<in>set [?a, ?b]. rankable obj"
    by (simp add: rankable_def construct_simps)
  then have "strict_weak_ordering byCollisionTime [?a, ?b]"
    by (rule byCollisionTime_strict_weak_ordering)
  with out have m: "mset (getObjects t') = mset [?a, ?b]"
    and s: "sorted_under byCollisionTime (getObjects t')"
    by (simp_all add: sortByThreatLevel_def std_sort_def)
  from m have "getObjects t' = [?a, ?b] \<or> getObjects t' = [?b, ?a]"
    by (rule two_perm)
  with s ba show eq: "getObjects t' = [?b, ?a]"
    by (auto simp: sorted_under_def)
  have "byThreatLevel ?a ?b"
    by (simp add: byThreatLevel_def kThreatLevelFactor_def object_simps)
  then show "\<not> sorted_under byThreatLevel (getObjects t')"
    by (simp add: eq sorted_under_def)
qed

theorem sortByThreatLevel_by_collision_time_witness:
  "sortByThreatLevel
      \<lparr>getObjects = [DetectedObject_new 1 (Finite 1) (Finite 0),
                    DetectedObject_new 2 (Finite 50) (Finite (- 1))]\<rparr>
      \<lparr>getObjects = [DetectedObject_new 2 (Finite 50) (Finite (- 1)),
                    DetectedObject_new 1 (Finite 1) (Finite 0)]\<rparr> \<and>
   \<not> sorted_under byThreatLevel
      [DetectedObject_new 2 (Finite 50) (Finite (- 1)),
       DetectedObject_new 1 (Finite 1) (Finite 0)]"
proof -
  let ?a = "DetectedObject_new 1 (Finite 1) (Finite 0)"
  let ?b = "DetectedObject_new 2 (Finite 50) (Finite (- 1))"
  have out: "sortByThreatLevel \<lparr>getObjects = [?a, ?b]\<rparr> \<lparr>getObjects = [?b, ?a]\<rparr>"
    by (simp add: sortByThreatLevel_def std_sort_def sorted_under_def byCollisionTime_def
        construct_simps)
  with sortByThreatLevel_by_collision_time
  have "\<not> sorted_under byThreatLevel (getObjects \<lparr>getObjects = [?b, ?a]\<rparr>)"
    by blast
  with out show ?thesis by simp
qed

section \<open>Threshold queries\<close>

lemma copy_if_filter: "copy_if pred xs out = out @ filter pred xs"
  by (induction xs arbitrary: out) simp_all

lemma any_of_iff: "any_of pred xs = (\<exists>x\<in>set xs. pred x)"
  by (induction xs) simp_all

lemma within_threshold_mono:
  assumes "fle t1 t2" "within_threshold t1 obj"
  shows "within_threshold t2 obj"
  using assms by (auto simp: within_threshold_def intro: fle_trans)

text \<open>
  Claim C7. \<open>getObjectsWithinTimeThreshold t\<close> returns exactly the stored objects whose
  collision time is not infinite and at most \<open>t\<close>, in their stored order; so no object
  with an infinite collision time is returned, whatever \<open>t\<close>. For \<open>t1 <= t2\<close> the result
  for \<open>t1\<close> is contained in the result for \<open>t2\<close>: it is the result for \<open>t2\<close> filtered
  once more.
\<close>

theorem getObjectsWithinTimeThreshold_filter:
  "getObjectsWithinTimeThreshold threshold t =
     filter (\<lambda>obj. \<not> isinf (getCollisionTime obj) \<and> fle (getCollisionTime obj) threshold)
       (getObjects t) \<and>
   (\<forall>obj\<in>set (getObjectsWithinTimeThreshold threshold t). \<not> isinf (getCollisionTime obj)) \<and>
   (fle t1 t2 \<longrightarrow>
      set (getObjectsWithinTimeThreshold t1 t) \<subseteq> set (getObjectsWithinTimeThreshold t2 t) \<and>
      getObjectsWithinTimeThreshold t1 t =
        filter (within_threshold t1) (getObjectsWithinTimeThreshold t2 t))"
proof (intro conjI impI)
  have f: "getObjectsWithinTimeThreshold th t = filter (within_threshold th) (getObjects t)"
    for th
    by (simp add: getObjectsWithinTimeThreshold_def copy_if_filter)
  show "getObjectsWithinTimeThreshold threshold t =
     filter (\<lambda>obj. \<not> isinf (getCollisionTime obj) \<and> fle (getCollisionTime obj) threshold)
       (getObjects t)"
    by (simp add: f within_threshold_def [abs_def])
  show "\<forall>obj\<in>set (getObjectsWithinTimeThreshold threshold t). \<not> isinf (getCollisionTime obj)"
    by (simp add: f within_threshold_def)
  assume le: "fle t1 t2"
  show "set (getObjectsWithinTimeThreshold t1 t) \<subseteq> set (getObjectsWithinTimeThreshold t2 t)"
    using within_threshold_mono [OF le] by (auto simp: f)
  have "filter (within_threshold t1) (filter (within_threshold t2) (getObjects t)) =
      filter (within_threshold t1) (getObjects t)"
    using within_threshold_mono [OF le] by (auto intro: filter_cong)
  then show "getObjectsWithinTimeThreshold t1 t =
      filter (within_threshold t1) (getObjectsWithinTimeThreshold t2 t)"
    by (simp add: f)
qed

text \<open>On the first three objects of the specification's first scenario.\<close>

theorem getObjectsWithinTimeThreshold_filter_witness:
  "getObjectsWithinTimeThreshold (Finite 2)
     \<lparr>getObjects = [DetectedObject_new 1 (Finite 50) (Finite (- 10)),
                   DetectedObject_new 2 (Finite 20) (Finite (- 20)),
                   DetectedObject_new 3 (Finite 100) (Finite 5)]\<rparr> =
     [DetectedObject_new 2 (Finite 20) (Finite (- 20))] \<and>
   getObjectsWithinTimeThreshold (Finite 5)
     \<lparr>getObjects = [DetectedObject_new 1 (Finite 50) (Finite (- 10)),
                   DetectedObject_new 2 (Finite 20) (Finite (- 20)),
                   DetectedObject_new 3 (Finite 100) (Finite 5)]\<rparr> =
     [DetectedObject_new 1 (Finite 50) (Finite (- 10)),
      DetectedObject_new 2 (Finite 20) (Finite (- 20))] \<and>
   set (getObjectsWithinTimeThreshold (Finite 2)
     \<lparr>getObjects = [DetectedObject_new 1 (Finite 50) (Finite (- 10)),
                   DetectedObject_new 2 (Finite 20) (Finite (- 20)),
                   DetectedObject_new 3 (Finite 100) (Finite 5)]\<rparr>) \<subseteq>
   set (getObjectsWithinTimeThreshold (Finite 5)
     \<lparr>getObjects = [DetectedObject_new 1 (Finite 50) (Finite (- 10)),
                   DetectedObject_new 2 (Finite 20) (Finite (- 20)),
                   DetectedObject_new 3 (Finite 100) (Finite 5)]\<rparr>)"
proof -
  let ?t = "\<lparr>getObjects = [DetectedObject_new 1 (Finite 50) (Finite (- 10)),
                   DetectedObject_new 2 (Finite 20) (Finite (- 20)),
                   DetectedObject_new 3 (Finite 100) (Finite 5)]\<rparr>"
  have le: "fle (Finite 2) (Finite 5)"
    by simp
  note c = getObjectsWithinTimeThreshold_filter [of _ ?t "Finite 2" "Finite 5"]
  have "getObjectsWithinTimeThreshold (Finite 2) ?t =
      [DetectedObject_new 2 (Finite 20) (Finite (- 20))]"
    using c [of "Finite 2"] by (simp add: construct_simps)
  moreover have "getObjectsWithinTimeThreshold (Finite 5) ?t =
      [DetectedObject_new 1 (Finite 50) (Finite (- 10)),
       DetectedObject_new 2 (Finite 20) (Finite (- 20))]"
    using c [of "Finite 5"] by (simp add: construct_simps)
  moreover have "set (getObjectsWithinTimeThreshold (Finite 2) ?t) \<subseteq>
      set (getObjectsWithinTimeThreshold (Finite 5) ?t)"
    using c [of "Finite 2"] le by blast
  ultimately show ?thesis
    by blast
qed

text \<open>
  Claim C8. \<open>hasCriticalObjects t\<close> is true exactly when some stored object has a
  collision time that is not infinite and at most \<open>t\<close>: exactly when
  \<open>getObjectsWithinTimeThreshold t\<close> is not empty.
\<close>

theorem hasCriticalObjects_iff:
  "hasCriticalObjects threshold t =
     (\<exists>obj\<in>set (getObjects t).
        \<not> isinf (getCollisionTime obj) \<and> fle (getCollisionTime obj) threshold) \<and>
   hasCriticalObjects threshold t = (getObjectsWithinTimeThreshold threshold t \<noteq> [])"
  by (auto simp: hasCriticalObjects_def getObjectsWithinTimeThreshold_def any_of_iff
      copy_if_filter within_threshold_def filter_empty_conv)

theorem hasCriticalObjects_iff_witness:
  "hasCriticalObjects (Finite 2)
     \<lparr>getObjects = [DetectedObject_new 1 (Finite 50) (Finite (- 10)),
                   DetectedObject_new 2 (Finite 20) (Finite (- 20)),
                   DetectedObject_new 3 (Finite 100) (Finite 5)]\<rparr> \<and>
   \<not> hasCriticalObjects (Finite 2)
     \<lparr>getObjects = [DetectedObject_new 1 (Finite 50) (Finite (- 10)),
                   DetectedObject_new 3 (Finite 100) (Finite 5)]\<rparr> \<and>
   \<not> hasCriticalObjects PInf
     \<lparr>getObjects = [DetectedObject_new 3 (Finite 100) (Finite 5)]\<rparr>"
proof -
  let ?o1 = "DetectedObject_new 1 (Finite 50) (Finite (- 10))"
  let ?o2 = "DetectedObject_new 2 (Finite 20) (Finite (- 20))"
  let ?o3 = "DetectedObject_new 3 (Finite 100) (Finite 5)"
  have "hasCriticalObjects (Finite 2) \<lparr>getObjects = [?o1, ?o2, ?o3]\<rparr>"
    using hasCriticalObjects_iff [of "Finite 2" "\<lparr>getObjects = [?o1, ?o2, ?o3]\<rparr>"]
    by (simp add: construct_simps)
  moreover have "\<not> hasCriticalObjects (Finite 2) \<lparr>getObjects = [?o1, ?o3]\<rparr>"
    using hasCriticalObjects_iff [of "Finite 2" "\<lparr>getObjects = [?o1, ?o3]\<rparr>"]
    by (simp add: construct_simps)
  moreover have "\<not> hasCriticalObjects PInf \<lparr>getObjects = [?o3]\<rparr>"
    using hasCriticalObjects_iff [of PInf "\<lparr>getObjects = [?o3]\<rparr>"]
    by (simp add: construct_simps)
  ultimately show ?thesis
    by blast
qed

section \<open>Parsing instructions\<close>

lemma fields_not_empty [simp]: "comma_fields cs \<noteq> []"
  by (cases cs) simp_all

lemma hd_tl_fields [simp]: "hd (comma_fields cs) # tl (comma_fields cs) = comma_fields cs"
  by simp

lemma parse_loop_tokens:
  "parse_loop cs cur acc =
     (case convert_all (filter (\<lambda>t. t \<noteq> [])
             ((cur @ hd (comma_fields (filter (\<lambda>c. c \<noteq> CHR '' '') cs))) #
              tl (comma_fields (filter (\<lambda>c. c \<noteq> CHR '' '') cs)))) of
        Inl e \<Rightarrow> Inl e
      | Inr is \<Rightarrow> Inr (acc @ is))"
proof (induction cs arbitrary: cur acc)
  case Nil
  then show ?case by (simp split: sum.splits)
next
  case (Cons c cs)
  show ?case
  proof (cases "c = CHR '',''")
    case True
    then show ?thesis by (simp add: Cons.IH split: sum.splits)
  next
    case False
    then show ?thesis by (simp add: Cons.IH split: sum.splits)
  qed
qed

lemma parseInstructions_tokens: "parseInstructions input = convert_all (tokens input)"
  by (simp add: parseInstructions_def parse_loop_tokens tokens_def split: sum.splits)

lemma convert_all_Inl:
  "convert_all ts = Inl e \<Longrightarrow> \<exists>t\<in>set ts. make_instruction t = Inl e"
  by (induction ts) (auto split: sum.splits)

lemma convert_all_isl:
  "isl (convert_all ts) = (\<exists>t\<in>set ts. isl (make_instruction t))"
  by (induction ts) (auto split: sum.splits)

lemma convert_all_Inr:
  "convert_all ts = Inr is \<Longrightarrow> is = map (\<lambda>t. projr (make_instruction t)) ts"
  by (induction ts arbitrary: "is") (auto split: sum.splits)

lemma make_instruction_Inl:
  "tok \<noteq> [] \<Longrightarrow> (make_instruction tok = Inl e) = (stoi (tl tok) = Inl e)"
  by (cases tok) (auto simp: make_instruction_def Let_def split: sum.splits)

lemma make_instruction_isl:
  "tok \<noteq> [] \<Longrightarrow> isl (make_instruction tok) = isl (stoi (tl tok))"
  by (cases tok) (auto simp: make_instruction_def Let_def split: sum.splits)

lemma make_instruction_Inr:
  "tok \<noteq> [] \<Longrightarrow> \<not> isl (make_instruction tok) \<Longrightarrow>
   projr (make_instruction tok) =
     \<lparr>getTurn = (if hd tok = CHR ''L'' then kLeft else kRight),
      getSteps = word_of_int (projr (stoi (tl tok)))\<rparr>"
  by (cases tok) (auto simp: make_instruction_def Let_def split: sum.splits)

lemma tokens_nonempty: "tok \<in> set (tokens input) \<Longrightarrow> tok \<noteq> []"
  by (simp add: tokens_def)

lemmas parse_simps = parseInstructions_def make_instruction_def stoi_def isspace_def isdigit_def
  digit_value_def decimal_value_def Let_def

text \<open>
  Claim C9 says that an input with a malformed token (an empty token, an unrecognised
  turn letter, a step count that is not a number) makes \<open>parseInstructions\<close> fail. The
  token \<^verbatim>\<open>X3\<close> becomes a right turn of 3 steps; the empty token of \<^verbatim>\<open>R2,,L3\<close> is
  skipped; the token \<^verbatim>\<open>R2x\<close> becomes a right turn of 2 steps. None of the three calls
  fails.
\<close>

theorem parseInstructions_lenient:
  "parseInstructions ''X3'' = Inr [\<lparr>getTurn = kRight, getSteps = 3\<rparr>] \<and>
   parseInstructions ''R2,,L3'' =
     Inr [\<lparr>getTurn = kRight, getSteps = 2\<rparr>, \<lparr>getTurn = kLeft, getSteps = 3\<rparr>] \<and>
   parseInstructions ''R2x'' = Inr [\<lparr>getTurn = kRight, getSteps = 2\<rparr>]"
  by (simp add: parse_simps)

text \<open>
  Claim C9, amended. \<open>parseInstructions\<close> converts, from left to right, the non-empty
  pieces between the commas of the input without its spaces. It fails exactly when
  \<^verbatim>\<open>std::stoi\<close> fails on the text after the first character of one of these tokens, and
  then with the exception of \<^verbatim>\<open>std::stoi\<close>. When it does not fail, each token has given
  one instruction: a left turn when its first character is \<^verbatim>\<open>L\<close> and a right turn
  otherwise, with the number that \<^verbatim>\<open>std::stoi\<close> reads at the start of the rest.
\<close>

theorem parseInstructions_stoi_errors:
  "parseInstructions input = convert_all (tokens input) \<and>
   (\<forall>tok\<in>set (tokens input). tok \<noteq> []) \<and>
   (parseInstructions input = Inl e \<longrightarrow> (\<exists>tok\<in>set (tokens input). stoi (tl tok) = Inl e)) \<and>
   ((\<exists>tok\<in>set (tokens input). isl (stoi (tl tok))) \<longrightarrow> isl (parseInstructions input)) \<and>
   (parseInstructions input = Inr instructions \<longrightarrow>
      instructions =
        map (\<lambda>tok. \<lparr>getTurn = (if hd tok = CHR ''L'' then kLeft else kRight),
                     getSteps = word_of_int (projr (stoi (tl tok)))\<rparr>) (tokens input))"
proof (intro conjI impI)
  show eq: "parseInstructions input = convert_all (tokens input)"
    by (rule parseInstructions_tokens)
  show ne: "\<forall>tok\<in>set (tokens input). tok \<noteq> []"
    by (simp add: tokens_nonempty)
  show "\<exists>tok\<in>set (tokens input). stoi (tl tok) = Inl e" if "parseInstructions input = Inl e"
  proof -
    from that eq have "convert_all (tokens input) = Inl e"
      by simp
    then obtain tok where "tok \<in> set (tokens input)" "make_instruction tok = Inl e"
      by (blast dest: convert_all_Inl)
    then show ?thesis
      using ne by (auto simp: make_instruction_Inl)
  qed
  show "isl (parseInstructions input)" if "\<exists>tok\<in>set (tokens input). isl (stoi (tl tok))"
    using that ne by (auto simp: eq convert_all_isl make_instruction_isl)
  show "instructions =
        map (\<lambda>tok. \<lparr>getTurn = (if hd tok = CHR ''L'' then kLeft else kRight),
                     getSteps = word_of_int (projr (stoi (tl tok)))\<rparr>) (tokens input)"
    if "parseInstructions input = Inr instructions"
  proof -
    from that eq have c: "convert_all (tokens input) = Inr instructions"
      by simp
    then have "\<not> isl (convert_all (tokens input))"
      by simp
    then have ok: "\<forall>tok\<in>set (tokens input). \<not> isl (make_instruction tok)"
      by (simp add: convert_all_isl)
    from c have "instructions = map (\<lambda>t. projr (make_instruction t)) (tokens input)"
      by (rule convert_all_Inr)
    also have "\<dots> = map (\<lambda>tok. \<lparr>getTurn = (if hd tok = CHR ''L'' then kLeft else kRight),
                     getSteps = word_of_int (projr (stoi (tl tok)))\<rparr>) (tokens input)"
      using ok ne by (intro map_cong refl) (simp add: make_instruction_Inr)
    finally show ?thesis .
  qed
qed

theorem parseInstructions_stoi_errors_witness:
  "parseInstructions ''R2,Lx'' = Inl invalid_argument \<and>
   parseInstructions ''R2,L3,L1'' =
     Inr [\<lparr>getTurn = kRight, getSteps = 2\<rparr>, \<lparr>getTurn = kLeft, getSteps = 3\<rparr>,
          \<lparr>getTurn = kLeft, getSteps = 1\<rparr>]"
proof -
  have t1: "tokens ''R2,Lx'' = [''R2'', ''Lx'']" and t2: "tokens ''R2,L3,L1'' = [''R2'', ''L3'', ''L1'']"
    by (simp_all add: tokens_def)
  have bad: "\<exists>tok\<in>set (tokens ''R2,Lx''). isl (stoi (tl tok))"
    by (simp add: t1 stoi_def isspace_def isdigit_def Let_def)
  with parseInstructions_stoi_errors [of "''R2,Lx''"] have "isl (parseInstructions ''R2,Lx'')"
    by blast
  then obtain e where e: "parseInstructions ''R2,Lx'' = Inl e"
    by (cases "parseInstructions ''R2,Lx''") simp_all
  with parseInstructions_stoi_errors [of "''R2,Lx''" e]
  have "\<exists>tok\<in>set (tokens ''R2,Lx''). stoi (tl tok) = Inl e"
    by blast
  then have "e = invalid_argument"
    by (auto simp: t1 stoi_def isspace_def isdigit_def digit_value_def decimal_value_def Let_def
        split: if_splits)
  with e have first: "parseInstructions ''R2,Lx'' = Inl invalid_argument"
    by simp
  have "parseInstructions ''R2,L3,L1'' = convert_all (tokens ''R2,L3,L1'')"
    using parseInstructions_stoi_errors [of "''R2,L3,L1''"] by blast
  then have "parseInstructions ''R2,L3,L1'' =
     Inr [\<lparr>getTurn = kRight, getSteps = 2\<rparr>, \<lparr>getTurn = kLeft, getSteps = 3\<rparr>,
          \<lparr>getTurn = kLeft, getSteps = 1\<rparr>]"
    by (simp add: t2 make_instruction_def stoi_def isspace_def isdigit_def digit_value_def
        decimal_value_def Let_def)
  with first show ?thesis
    by blast
qed

end
